theory Spec2Isabelle
  imports Main "HOL-Library.Word"
begin

section \<open>JavaScript strings\<close>

text \<open>
  A JavaScript string is a sequence of 16-bit UTF-16 code units; \<open>length\<close>, \<open>slice\<close>
  and regular expressions without the \<open>u\<close> flag all work on code units.
  \<open>js\<close> writes an ASCII literal as such a sequence.
\<close>

type_synonym jschar = "16 word"
type_synonym jsstring = "jschar list"

definition js :: "string \<Rightarrow> jsstring" where
  "js s = map of_char s"

text \<open>
  \<open>String.prototype.normalize\<close> and \<open>String.prototype.toLowerCase\<close> are driven by the
  Unicode character database of the JavaScript engine, which is not part of the program.
  They are taken as parameters; \<open>ascii_unicode\<close> is what they compute on strings of
  ASCII code units (NFKD leaves them unchanged, \<open>toLowerCase\<close> maps A-Z to a-z).
\<close>

record js_unicode =
  normalizeNFKD :: "jsstring \<Rightarrow> jsstring"
  toLowerCase :: "jsstring \<Rightarrow> jsstring"

definition ascii_lower :: "jschar \<Rightarrow> jschar" where
  "ascii_lower c = (if 0x41 \<le> c \<and> c \<le> 0x5A then c + 0x20 else c)"

definition ascii_unicode :: js_unicode where
  "ascii_unicode = \<lparr> normalizeNFKD = (\<lambda>s. s), toLowerCase = map ascii_lower \<rparr>"

text \<open>
  The character classes of the regular expressions. \<open>\s\<close> and \<open>trim\<close> use the
  same set (WhiteSpace and LineTerminator of ECMAScript); \<open>.\<close> without the \<open>s\<close>
  flag is every code unit that is not a LineTerminator.
\<close>

definition isLineTerminator :: "jschar \<Rightarrow> bool" where
  "isLineTerminator c \<longleftrightarrow> c = 0x0A \<or> c = 0x0D \<or> c = 0x2028 \<or> c = 0x2029"

definition isSpace :: "jschar \<Rightarrow> bool" where
  "isSpace c \<longleftrightarrow>
     (0x09 \<le> c \<and> c \<le> 0x0D) \<or> c = 0x20 \<or> c = 0xA0 \<or> c = 0x1680 \<or>
     (0x2000 \<le> c \<and> c \<le> 0x200A) \<or> c = 0x2028 \<or> c = 0x2029 \<or> c = 0x202F \<or>
     c = 0x205F \<or> c = 0x3000 \<or> c = 0xFEFF"

definition trim :: "jsstring \<Rightarrow> jsstring" where
  "trim s = rev (dropWhile isSpace (rev (dropWhile isSpace s)))"

section \<open>slugify\<close>

text \<open>The class of the first \<open>replace\<close>: the combining diacritical marks, U+0300 to U+036F.\<close>

definition isCombiningMark :: "jschar \<Rightarrow> bool" where
  "isCombiningMark c \<longleftrightarrow> 0x0300 \<le> c \<and> c \<le> 0x036F"

text \<open>\<open>[a-z0-9]\<close>.\<close>

definition isSlugChar :: "jschar \<Rightarrow> bool" where
  "isSlugChar c \<longleftrightarrow> (0x61 \<le> c \<and> c \<le> 0x7A) \<or> (0x30 \<le> c \<and> c \<le> 0x39)"

definition hyphen :: jschar where
  "hyphen = 0x2D"

text \<open>
  \<open>.replace(/[^a-z0-9]+/g, '-')\<close>: every maximal run of code units outside
  \<open>[a-z0-9]\<close> becomes one hyphen.
\<close>

function replaceNonAlnum :: "jsstring \<Rightarrow> jsstring" where
  "replaceNonAlnum [] = []"
| "replaceNonAlnum (c # cs) =
     (if isSlugChar c then c # replaceNonAlnum cs
      else hyphen # replaceNonAlnum (dropWhile (\<lambda>d. \<not> isSlugChar d) cs))"
  by pat_completeness auto
termination
  by (relation "measure length") (auto simp: less_Suc_eq_le length_dropWhile_le)

text \<open>
  \<open>.replace(/(^-|-$)/g, '')\<close>: a hyphen at index 0 is removed, and then a hyphen
  that is the last code unit of what follows.
\<close>

definition trimHyphens :: "jsstring \<Rightarrow> jsstring" where
  "trimHyphens s =
     (let s1 = (case s of [] \<Rightarrow> [] | c # cs \<Rightarrow> if c = hyphen then cs else s)
      in if s1 \<noteq> [] \<and> last s1 = hyphen then butlast s1 else s1)"

definition slugify :: "js_unicode \<Rightarrow> jsstring \<Rightarrow> jsstring" where
  "slugify U text =
     take 90
       (trimHyphens
          (replaceNonAlnum
             (toLowerCase U
                (filter (\<lambda>c. \<not> isCombiningMark c) (normalizeNFKD U text)))))"

section \<open>Name extraction\<close>

text \<open>
  The three regular expressions of the program have one shape,
  \<open>kw\s*:\s*(.+)\<close> with the \<open>i\<close> flag, anchored (\<open>^\s*\<close> in front and \<open>$\<close>
  behind) in \<open>parseOCName\<close> and unanchored for the embed title.

  \<open>ciPrefix kw s\<close>: the keyword (given in lower case) at the start of \<open>s\<close>, compared
  without case; what follows it. Without the \<open>u\<close> flag no code unit above 127 is
  equal without case to an ASCII letter.
\<close>

definition ciPrefix :: "string \<Rightarrow> jsstring \<Rightarrow> jsstring option" where
  "ciPrefix kw s =
     (if length kw \<le> length s \<and> map ascii_lower (take (length kw) s) = js kw
      then Some (drop (length kw) s) else None)"

text \<open>
  \<open>\s*(.+)\<close> on what follows the colon. \<open>\s*\<close> is greedy and backtracks: it is
  tried with \<open>k\<close> code units, then \<open>k - 1\<close>, down to none. \<open>(.+)\<close> takes every code unit
  up to the first line terminator and needs at least one; with \<open>$\<close> it has to reach
  the end of the string.
\<close>

fun captureRest :: "bool \<Rightarrow> jsstring \<Rightarrow> nat \<Rightarrow> jsstring option" where
  "captureRest anchored s k =
     (let r = drop k s; g = takeWhile (\<lambda>c. \<not> isLineTerminator c) r
      in if g \<noteq> [] \<and> (anchored \<longrightarrow> g = r) then Some g
         else (case k of 0 \<Rightarrow> None | Suc j \<Rightarrow> captureRest anchored s j))"

definition colon :: jschar where
  "colon = 0x3A"

text \<open>The match of \<open>kw\s*:\s*(.+)\<close> that starts at the first code unit: its group 1.\<close>

definition matchAt :: "bool \<Rightarrow> string \<Rightarrow> jsstring \<Rightarrow> jsstring option" where
  "matchAt anchored kw s =
     (case ciPrefix kw s of
        None \<Rightarrow> None
      | Some s1 \<Rightarrow>
          (case dropWhile isSpace s1 of
             [] \<Rightarrow> None
           | c # s2 \<Rightarrow>
               if c = colon then captureRest anchored s2 (length (takeWhile isSpace s2))
               else None))"

text \<open>\<open>title.match(/OC\s*:\s*(.+)/i)\<close>: the leftmost match; its group 1.\<close>

fun searchOC :: "jsstring \<Rightarrow> jsstring option" where
  "searchOC [] = None"
| "searchOC (c # cs) =
     (case matchAt False ''oc'' (c # cs) of
        Some g \<Rightarrow> Some g
      | None \<Rightarrow> searchOC cs)"

definition parseOCName :: "jsstring \<Rightarrow> jsstring" where
  "parseOCName content =
     (let trimmed = trim content;
          match = (case matchAt True ''oc'' (dropWhile isSpace trimmed) of
                     Some g \<Rightarrow> Some g
                   | None \<Rightarrow> matchAt True ''name'' (dropWhile isSpace trimmed))
      in trim (case match of Some g \<Rightarrow> g | None \<Rightarrow> trimmed))"

text \<open>A value of an environment variable or a nullable field is truthy when it is a non-empty string.\<close>

definition truthy :: "jsstring option \<Rightarrow> bool" where
  "truthy v = (case v of None \<Rightarrow> False | Some s \<Rightarrow> s \<noteq> [])"

record embed =
  title :: "jsstring option"
  embedData :: jsstring

record message =
  author_bot :: bool
  author_id :: jsstring
  webhookId :: "jsstring option"
  guild_id :: "jsstring option"
  channel_id :: jsstring
  embeds :: "embed list"
  content :: jsstring
  msg_member :: "jsstring option"

text \<open>
  Lines 130 to 143 of the handler. \<open>fullName\<close> starts undefined (\<open>None\<close>); the
  fallback runs when it is undefined or the empty string.
\<close>

definition embedName :: "message \<Rightarrow> jsstring option" where
  "embedName m =
     (case embeds m of
        [] \<Rightarrow> None
      | e # _ \<Rightarrow>
          (case title e of
             None \<Rightarrow> None
           | Some t \<Rightarrow>
               if t = [] then None
               else (case searchOC t of None \<Rightarrow> None | Some g \<Rightarrow> Some (trim g))))"

definition extractFullName :: "message \<Rightarrow> jsstring" where
  "extractFullName m =
     (case embedName m of
        None \<Rightarrow> parseOCName (content m)
      | Some n \<Rightarrow> if n = [] then parseOCName (content m) else n)"

section \<open>Configuration, errors and the outside world\<close>

text \<open>The environment variables; \<open>None\<close> is a variable that is not set.\<close>

record config =
  GUILD_ID :: "jsstring option"
  SUBMISSIONS_CHANNEL_ID :: "jsstring option"
  OC_CATEGORY_ID :: "jsstring option"
  MOD_ROLE_ID :: "jsstring option"
  GM_ROLE_ID :: "jsstring option"
  LOG_CHANNEL_ID :: "jsstring option"
  PUBLISHED_SHEET_KEY :: "jsstring option"
  FORM_RESPONSES_GID_var :: "jsstring option"

text \<open>
  The asynchronous calls into the platform, each of which may reject, and the errors of
  the program: a rejected call, the error thrown for a response that is not ok, and the
  TypeError of reading \<open>message.member.roles\<close> when the member is null.
\<close>

datatype extcall =
  Fetch | ResText | Reply | GuildsFetch | RolesCreate | ChannelsCreate
  | WelcomeSend | EmbedSend | RolesAdd | LogSend

datatype error = Rejected extcall | FailedToFetchSheet nat | TypeError

datatype console_entry =
  ConsoleWarn jsstring error
  | ConsoleError jsstring error
  | ConsoleLog jsstring "jsstring set"
  | ConsoleInfo jsstring

record response =
  ok :: bool
  status :: nat
  body :: "jsstring option"

datatype permission =
  ViewChannel | SendMessages | ReadMessageHistory | AttachFiles | EmbedLinks
  | AddReactions | ManageMessages | ManageChannels

record overwrite =
  ow_id :: "jsstring option"
  allow :: "permission list"
  deny :: "permission list"

datatype channel_type = GuildText | GuildVoice | GuildCategory | GuildAnnouncement | GuildForum

record role =
  role_id :: jsstring
  role_name :: jsstring

record channel =
  chan_id :: jsstring
  chan_name :: jsstring
  chan_type :: channel_type
  parent :: "jsstring option"
  permissionOverwrites :: "overwrite list"

datatype payload = Text jsstring | Embeds "embed list"

text \<open>
  The state the handler reads and writes: the module variable \<open>existingOCNames\<close>, the
  URLs requested with \<open>fetch\<close>, the role and channel caches of the guild (a created
  entity is added to its cache, in order), the roles each member holds, the audit-log
  reasons, the replies to the message, the messages sent to channels, and the console.
\<close>

record world =
  existingOCNames :: "jsstring set"
  requests :: "jsstring list"
  roles :: "role list"
  channels :: "channel list"
  everyone_id :: jsstring
  memberRoles :: "(jsstring \<times> jsstring) set"
  auditReasons :: "jsstring list"
  replies :: "jsstring list"
  sent :: "(jsstring \<times> payload) list"
  console :: "console_entry list"

text \<open>
  What the outside does during one run of a handler: the answer to the fetch of a URL
  (\<open>None\<close>: the fetch rejects), which calls reject, and the identifiers the platform
  gives to a role and a channel created in this run.
\<close>

record env =
  fetch :: "jsstring \<Rightarrow> response option"
  rejects :: "extcall \<Rightarrow> bool"
  newRoleId :: jsstring
  newChannelId :: jsstring

text \<open>
  An asynchronous function: from the state to its result, a value or a thrown error, and
  the state it leaves. \<open>andThen\<close> sequences two of them as \<open>await\<close> does: an error of the
  first skips the second, and keeps the effects made so far.
\<close>

type_synonym 'a action = "world \<Rightarrow> (error + 'a) \<times> world"

definition finish :: "'a \<Rightarrow> 'a action" where
  "finish x w = (Inr x, w)"

definition throw :: "error \<Rightarrow> 'a action" where
  "throw e w = (Inl e, w)"

definition andThen :: "'a action \<Rightarrow> ('a \<Rightarrow> 'b action) \<Rightarrow> 'b action" where
  "andThen f g w = (case f w of (Inl e, w1) \<Rightarrow> (Inl e, w1) | (Inr x, w1) \<Rightarrow> g x w1)"

text \<open>A call into the platform: it rejects, or has its effect and returns.\<close>

definition invoke :: "env \<Rightarrow> extcall \<Rightarrow> 'a \<Rightarrow> (world \<Rightarrow> world) \<Rightarrow> 'a action" where
  "invoke E c x eff w = (if rejects E c then (Inl (Rejected c), w) else (Inr x, eff w))"

section \<open>The roster: loadExistingOCs\<close>

text \<open>\<open>text.split(/\r?\n/)\<close>.\<close>

fun splitLines :: "jsstring \<Rightarrow> jsstring list" where
  "splitLines [] = [[]]"
| "splitLines (c # cs) =
     (if c = 0x0A then [] # splitLines cs
      else if c = 0x0D \<and> take 1 cs = [0x0A] then [] # splitLines (drop 1 cs)
      else (case splitLines cs of l # ls \<Rightarrow> (c # l) # ls | [] \<Rightarrow> [[c]]))"

text \<open>\<open>line.split(',')\<close>.\<close>

definition comma :: jschar where
  "comma = 0x2C"

fun splitComma :: "jsstring \<Rightarrow> jsstring list" where
  "splitComma [] = [[]]"
| "splitComma (c # cs) =
     (if c = comma then [] # splitComma cs
      else (case splitComma cs of l # ls \<Rightarrow> (c # l) # ls | [] \<Rightarrow> [[c]]))"

text \<open>\<open>(cells[NAME_COLUMN_INDEX] || '').trim()\<close> with \<open>NAME_COLUMN_INDEX = 1\<close>.\<close>

definition rawNameOf :: "jsstring \<Rightarrow> jsstring" where
  "rawNameOf line =
     (let cells = splitComma line
      in trim (if 1 < length cells then cells ! 1 else []))"

text \<open>The loop over \<open>lines[1]\<close>, \<open>lines[2]\<close>, ... that fills the set \<open>names\<close>.\<close>

fun addNames :: "js_unicode \<Rightarrow> jsstring list \<Rightarrow> jsstring set \<Rightarrow> jsstring set" where
  "addNames U [] names = names"
| "addNames U (line # rest) names =
     (let rawName = rawNameOf line
      in addNames U rest
           (if rawName \<noteq> [] then insert (toLowerCase U rawName) names else names))"

definition parseSheet :: "js_unicode \<Rightarrow> jsstring \<Rightarrow> jsstring set" where
  "parseSheet U txt =
     (let lines = filter (\<lambda>l. 0 < length (trim l)) (splitLines txt)
      in addNames U (drop 1 lines) {})"

text \<open>A template string writes a variable that is not set as \<open>undefined\<close>.\<close>

definition interp :: "jsstring option \<Rightarrow> jsstring" where
  "interp v = (case v of None \<Rightarrow> js ''undefined'' | Some s \<Rightarrow> s)"

definition FORM_RESPONSES_GID :: "config \<Rightarrow> jsstring" where
  "FORM_RESPONSES_GID C =
     (if truthy (FORM_RESPONSES_GID_var C) then interp (FORM_RESPONSES_GID_var C)
      else js ''693027147'')"

definition sheetUrl :: "config \<Rightarrow> jsstring" where
  "sheetUrl C =
     js ''https://docs.google.com/spreadsheets/d/e/'' @ interp (PUBLISHED_SHEET_KEY C)
     @ js ''/pub?output=csv&gid='' @ FORM_RESPONSES_GID C"

text \<open>
  The body of the \<open>try\<close> of \<open>loadExistingOCs\<close>: what the request of the sheet's URL
  and the parsing of the answer come to.
\<close>

definition fetchNames :: "js_unicode \<Rightarrow> config \<Rightarrow> env \<Rightarrow> error + jsstring set" where
  "fetchNames U C E =
     (case fetch E (sheetUrl C) of
        None \<Rightarrow> Inl (Rejected Fetch)
      | Some res \<Rightarrow>
          if \<not> ok res then Inl (FailedToFetchSheet (status res))
          else (case body res of
                  None \<Rightarrow> Inl (Rejected ResText)
                | Some txt \<Rightarrow> Inr (parseSheet U txt)))"

definition loadExistingOCs :: "js_unicode \<Rightarrow> config \<Rightarrow> env \<Rightarrow> (jsstring set) action" where
  "loadExistingOCs U C E w =
     (let w0 = w\<lparr>requests := requests w @ [sheetUrl C]\<rparr>
      in case fetchNames U C E of
           Inr names \<Rightarrow> (Inr names, w0)
         | Inl err \<Rightarrow>
             (Inr {},
              w0\<lparr>console := console w0
                   @ [ConsoleWarn (js ''Unable to load existing OCs from sheet:'') err]\<rparr>))"

section \<open>The messageCreate handler\<close>

definition duplicateReply :: "jsstring \<Rightarrow> jsstring" where
  "duplicateReply fullName =
     js ''An OC named **'' @ fullName @ js ''** already exists in the roster.\<newline>''
     @ js ''If you believe this is an error or you wish to update your existing character, please contact a moderator.''"

definition formatHelp :: jsstring where
  \<open>formatHelp =
     js ''Please include both first and last name when submitting an OC (e.g., "OC: Mito Uzumaki").''\<close>

definition welcomeText :: "jsstring \<Rightarrow> jsstring" where
  "welcomeText fullName =
     js ''A new Prodigy has been reborn!\<newline>''
     @ js ''This is your private OC channel for **'' @ fullName @ js ''**.\<newline>''
     @ js ''Use this space to organise character details, jutsu lists, and updates.\<newline>''
     @ js ''Only you, moderators, and game masters can view this channel.''"

definition logText :: "jsstring \<Rightarrow> role \<Rightarrow> channel \<Rightarrow> message \<Rightarrow> jsstring" where
  "logText fullName r ch m =
     js ''OC created: **'' @ fullName @ js ''**\<newline>''
     @ js ''Role: <@&'' @ role_id r @ js ''> (ID: '' @ role_id r @ js '')\<newline>''
     @ js ''Channel: <#'' @ chan_id ch @ js ''> (ID: '' @ chan_id ch @ js '')\<newline>''
     @ js ''By: <@'' @ author_id m @ js ''>''"

text \<open>\<open>fullName.split(/\s+/)\<close>.\<close>

function splitWs :: "jsstring \<Rightarrow> jsstring list" where
  "splitWs [] = [[]]"
| "splitWs (c # cs) =
     (if isSpace c then [] # splitWs (dropWhile isSpace cs)
      else (case splitWs cs of l # ls \<Rightarrow> (c # l) # ls | [] \<Rightarrow> [[c]]))"
  by pat_completeness auto
termination
  by (relation "measure length") (auto simp: less_Suc_eq_le length_dropWhile_le)

text \<open>Lines 175 to 183: the role, looked up without case in the cache, created when absent.\<close>

definition resolveRole :: "js_unicode \<Rightarrow> env \<Rightarrow> jsstring \<Rightarrow> jsstring \<Rightarrow> role action" where
  "resolveRole U E fullName roleName w =
     (case find (\<lambda>r. toLowerCase U (role_name r) = toLowerCase U roleName) (roles w) of
        Some r \<Rightarrow> finish r w
      | None \<Rightarrow>
          (let r = \<lparr> role_id = newRoleId E, role_name = roleName \<rparr>
           in invoke E RolesCreate r
                (\<lambda>w. w\<lparr>roles := roles w @ [r],
                        auditReasons := auditReasons w @ [js ''Created OC role for '' @ fullName]\<rparr>)
                w))"

text \<open>Lines 191 to 230: the permission overwrites of a new channel.\<close>

definition buildOverwrites :: "config \<Rightarrow> world \<Rightarrow> role \<Rightarrow> overwrite list" where
  "buildOverwrites C w r =
     [\<lparr> ow_id = Some (everyone_id w), allow = [], deny = [ViewChannel] \<rparr>,
      \<lparr> ow_id = Some (role_id r),
        allow = [ViewChannel, SendMessages, ReadMessageHistory, AttachFiles, EmbedLinks,
                 AddReactions],
        deny = [] \<rparr>,
      \<lparr> ow_id = MOD_ROLE_ID C,
        allow = [ViewChannel, SendMessages, ReadMessageHistory, ManageMessages,
                 ManageChannels],
        deny = [] \<rparr>]
     @ (if truthy (GM_ROLE_ID C)
        then [\<lparr> ow_id = GM_ROLE_ID C,
                allow = [ViewChannel, SendMessages, ReadMessageHistory, ManageMessages,
                         ManageChannels],
                deny = [] \<rparr>]
        else [])"

text \<open>Lines 250 to 258: the first embed is sent to the new channel; a failure is logged and swallowed.\<close>

definition copyEmbed :: "env \<Rightarrow> message \<Rightarrow> channel \<Rightarrow> unit action" where
  "copyEmbed E m ch w =
     (case embeds m of
        [] \<Rightarrow> finish () w
      | e # _ \<Rightarrow>
          (case invoke E EmbedSend ()
                  (\<lambda>w. w\<lparr>sent := sent w @ [(chan_id ch, Embeds [e])]\<rparr>) w of
             (Inl err, w1) \<Rightarrow>
               (Inr (),
                w1\<lparr>console := console w1
                     @ [ConsoleWarn (js ''Failed to copy embed to new channel:'') err]\<rparr>)
           | (Inr u, w1) \<Rightarrow> (Inr u, w1)))"

text \<open>Lines 186 to 259: the channel, looked up by type and exact name, created when absent.\<close>

definition resolveChannel ::
  "config \<Rightarrow> env \<Rightarrow> message \<Rightarrow> jsstring \<Rightarrow> jsstring \<Rightarrow> role \<Rightarrow> channel action" where
  "resolveChannel C E m fullName channelName r w =
     (case find (\<lambda>c. chan_type c = GuildText \<and> chan_name c = channelName) (channels w) of
        Some ch \<Rightarrow> finish ch w
      | None \<Rightarrow>
          (let overwrites = buildOverwrites C w r;
               ch = \<lparr> chan_id = newChannelId E, chan_name = channelName,
                      chan_type = GuildText,
                      parent = (if truthy (OC_CATEGORY_ID C) then OC_CATEGORY_ID C else None),
                      permissionOverwrites = overwrites \<rparr>
           in andThen
                (invoke E ChannelsCreate ()
                   (\<lambda>w. w\<lparr>channels := channels w @ [ch],
                           auditReasons := auditReasons w
                             @ [js ''Created OC channel for '' @ fullName]\<rparr>))
                (\<lambda>_. andThen
                   (invoke E WelcomeSend ()
                      (\<lambda>w. w\<lparr>sent := sent w @ [(chan_id ch, Text (welcomeText fullName))]\<rparr>))
                   (\<lambda>_. andThen (copyEmbed E m ch) (\<lambda>_. finish ch)))
                w))"

text \<open>Lines 262 to 264. \<open>message.member\<close> is null for a message sent by a webhook.\<close>

definition assignRole :: "env \<Rightarrow> message \<Rightarrow> role \<Rightarrow> unit action" where
  "assignRole E m r w =
     (case msg_member m of
        None \<Rightarrow> throw TypeError w
      | Some mem \<Rightarrow>
          if (mem, role_id r) \<in> memberRoles w then finish () w
          else invoke E RolesAdd ()
                 (\<lambda>w. w\<lparr>memberRoles := insert (mem, role_id r) (memberRoles w)\<rparr>) w)"

definition isTextBased :: "channel_type \<Rightarrow> bool" where
  "isTextBased t \<longleftrightarrow> t = GuildText \<or> t = GuildVoice \<or> t = GuildAnnouncement"

text \<open>Lines 267 to 277.\<close>

definition logCreation ::
  "config \<Rightarrow> env \<Rightarrow> message \<Rightarrow> jsstring \<Rightarrow> role \<Rightarrow> channel \<Rightarrow> unit action" where
  "logCreation C E m fullName r ch w =
     (if truthy (LOG_CHANNEL_ID C) then
        (case find (\<lambda>c. Some (chan_id c) = LOG_CHANNEL_ID C) (channels w) of
           None \<Rightarrow> finish () w
         | Some logChannel \<Rightarrow>
             if isTextBased (chan_type logChannel)
             then invoke E LogSend ()
                    (\<lambda>w. w\<lparr>sent := sent w
                              @ [(chan_id logChannel, Text (logText fullName r ch m))]\<rparr>) w
             else finish () w)
      else finish () w)"

text \<open>
  Lines 166 to 277, the provisioning of the specification. \<open>parts\<close> has at least two
  elements here. \<open>lastName\<close> is computed by the source and never used.
\<close>

definition provision ::
  "js_unicode \<Rightarrow> config \<Rightarrow> env \<Rightarrow> message \<Rightarrow> jsstring \<Rightarrow> jsstring list \<Rightarrow> unit action" where
  "provision U C E m fullName parts =
     (let firstName = parts ! 0;
          roleName = firstName;
          channelSlug = slugify U fullName;
          channelName = js ''oc-'' @ channelSlug
      in andThen (invoke E GuildsFetch () (\<lambda>w. w))
           (\<lambda>_. andThen (resolveRole U E fullName roleName)
              (\<lambda>r. andThen (resolveChannel C E m fullName channelName r)
                 (\<lambda>ch. andThen (assignRole E m r)
                    (\<lambda>_. logCreation C E m fullName r ch)))))"

definition reply :: "env \<Rightarrow> jsstring \<Rightarrow> unit action" where
  "reply E txt = invoke E Reply () (\<lambda>w. w\<lparr>replies := replies w @ [txt]\<rparr>)"

text \<open>Lines 123 to 127: the guards that return before anything else happens.\<close>

definition inScope :: "config \<Rightarrow> message \<Rightarrow> bool" where
  "inScope C m \<longleftrightarrow>
     \<not> (author_bot m \<and> \<not> truthy (webhookId m))
     \<and> (case guild_id m of
          None \<Rightarrow> False
        | Some gid \<Rightarrow> Some gid = GUILD_ID C \<and> Some (channel_id m) = SUBMISSIONS_CHANNEL_ID C)"

text \<open>The body of the \<open>try\<close> of the handler.\<close>

definition handleMessage :: "js_unicode \<Rightarrow> config \<Rightarrow> env \<Rightarrow> message \<Rightarrow> unit action" where
  "handleMessage U C E m w =
     (if \<not> inScope C m then finish () w
      else
        (let fullName = extractFullName m
         in if fullName = [] then finish () w
            else
              andThen (loadExistingOCs U C E)
                (\<lambda>names w1.
                   (let w2 = w1\<lparr>existingOCNames := names\<rparr>
                    in if toLowerCase U fullName \<in> existingOCNames w2
                       then reply E (duplicateReply fullName) w2
                       else
                         (let parts = splitWs fullName
                          in if length parts < 2 then reply E formatHelp w2
                             else provision U C E m fullName parts w2)))
                w))"

text \<open>The handler: an error of the body is caught and written to the console.\<close>

definition messageCreate :: "js_unicode \<Rightarrow> config \<Rightarrow> env \<Rightarrow> message \<Rightarrow> unit action" where
  "messageCreate U C E m w =
     (case handleMessage U C E m w of
        (Inr u, w1) \<Rightarrow> (Inr u, w1)
      | (Inl err, w1) \<Rightarrow>
          (Inr (),
           w1\<lparr>console := console w1 @ [ConsoleError (js ''Error handling OC submission:'') err]\<rparr>))"

text \<open>The ready handler: the names are loaded once at startup.\<close>

definition onReady :: "js_unicode \<Rightarrow> config \<Rightarrow> env \<Rightarrow> jsstring \<Rightarrow> world \<Rightarrow> world" where
  "onReady U C E tag w =
     (let w0 = w\<lparr>console := console w @ [ConsoleInfo (js ''Logged in as '' @ tag)]\<rparr>
      in case loadExistingOCs U C E w0 of
           (Inr names, w1) \<Rightarrow>
             w1\<lparr>existingOCNames := names,
                console := console w1
                  @ [ConsoleLog (js ''Loaded existing OCs from sheet:'') names]\<rparr>
         | (Inl err, w1) \<Rightarrow> w1)"

section \<open>A small guild to run the handler on\<close>

definition exampleConfig :: config where
  "exampleConfig =
     \<lparr> GUILD_ID = Some (js ''100''), SUBMISSIONS_CHANNEL_ID = Some (js ''200''),
       OC_CATEGORY_ID = Some (js ''300''), MOD_ROLE_ID = Some (js ''400''),
       GM_ROLE_ID = None, LOG_CHANNEL_ID = None,
       PUBLISHED_SHEET_KEY = Some (js ''key''), FORM_RESPONSES_GID_var = None \<rparr>"

definition exampleSheet :: jsstring where
  "exampleSheet = js ''Timestamp,Full name\<newline>1,Sakura Haruno\<newline>2,Gaara\<newline>''"

definition exampleEnv :: env where
  "exampleEnv =
     \<lparr> fetch = (\<lambda>url. Some \<lparr> ok = True, status = 200, body = Some exampleSheet \<rparr>),
       rejects = (\<lambda>c. False), newRoleId = js ''501'', newChannelId = js ''601'' \<rparr>"

definition exampleWorld :: world where
  "exampleWorld =
     \<lparr> existingOCNames = {}, requests = [], roles = [], channels = [],
       everyone_id = js ''100'', memberRoles = {}, auditReasons = [], replies = [],
       sent = [], console = [] \<rparr>"

definition exampleMessage :: "jsstring \<Rightarrow> message" where
  "exampleMessage txt =
     \<lparr> author_bot = False, author_id = js ''700'', webhookId = None,
       guild_id = Some (js ''100''), channel_id = js ''200'', embeds = [],
       content = txt, msg_member = Some (js ''700'') \<rparr>"

definition botMessage :: message where
  "botMessage = (exampleMessage (js ''OC: Mito Uzumaki''))\<lparr>author_bot := True\<rparr>"

definition webhookSubmission :: message where
  "webhookSubmission =
     \<lparr> author_bot = True, author_id = js ''800'', webhookId = Some (js ''800''),
       guild_id = Some (js ''100''), channel_id = js ''200'',
       embeds = [\<lparr> title = Some (js ''OC: Mito Uzumaki''), embedData = js ''A prodigy'' \<rparr>],
       content = [], msg_member = None \<rparr>"

text \<open>A name whose slug is longer than 90 code units, with a hyphen as the 90th.\<close>

definition longName :: jsstring where
  "longName = replicate 89 0x61 @ js '' b''"

definition twoEmbeds :: message where
  "twoEmbeds =
     (exampleMessage (js ''OC: Rock Lee''))
       \<lparr>embeds := [\<lparr> title = Some (js ''Character sheet''), embedData = js ''first'' \<rparr>,
                   \<lparr> title = Some (js ''OC: Mito Uzumaki''), embedData = js ''second'' \<rparr>]\<rparr>"

definition exampleChannel :: channel where
  "exampleChannel =
     \<lparr> chan_id = js ''600'', chan_name = js ''oc-rock-lee'', chan_type = GuildText,
       parent = None, permissionOverwrites = [] \<rparr>"

text \<open>The sheet after a moderator has added Mito Uzumaki to it.\<close>

definition updatedEnv :: env where
  "updatedEnv =
     exampleEnv\<lparr>fetch := (\<lambda>url. Some \<lparr> ok = True, status = 200,
        body = Some (exampleSheet @ js ''3,Mito Uzumaki\<newline>'') \<rparr>)\<rparr>"

text \<open>The configuration of the example with a game-master role.\<close>

definition gmConfig :: config where
  "gmConfig = exampleConfig\<lparr>GM_ROLE_ID := Some (js ''450'')\<rparr>"






text \<open>An embed whose title is \<open>OC:\<close> and a space, on a message with a name as its text.\<close>

definition blankTitleMessage :: message where
  "blankTitleMessage =
     (exampleMessage (js ''Mito Uzumaki''))
       \<lparr>embeds := [\<lparr> title = Some (js ''OC: ''), embedData = [] \<rparr>]\<rparr>"



section \<open>Sequencing and framing\<close>

lemma finish_eq [simp]: "finish x w = (Inr x, w)"
  by (simp add: finish_def)

lemma throw_eq [simp]: "throw e w = (Inl e, w)"
  by (simp add: throw_def)

lemma andThen_Inr: "f w = (Inr x, w1) \<Longrightarrow> andThen f g w = g x w1"
  by (simp add: andThen_def)

lemma andThen_Inl: "f w = (Inl e, w1) \<Longrightarrow> andThen f g w = (Inl e, w1)"
  by (simp add: andThen_def)

lemma invoke_rejected: "rejects E c \<Longrightarrow> invoke E c x eff w = (Inl (Rejected c), w)"
  by (simp add: invoke_def)

lemma invoke_ok: "\<not> rejects E c \<Longrightarrow> invoke E c x eff w = (Inr x, eff w)"
  by (simp add: invoke_def)

text \<open>A projection of the state that no step of a sequence changes is unchanged by the sequence.\<close>

lemma andThen_keeps:
  assumes "\<And>w. P (snd (f w)) = P w" and "\<And>x w. P (snd (g x w)) = P w"
  shows "P (snd (andThen f g w)) = P w"
proof (cases "f w")
  case (Pair r w1)
  with assms(1)[of w] have w1: "P w1 = P w" by simp
  show ?thesis
  proof (cases r)
    case (Inl e)
    with Pair w1 show ?thesis by (simp add: andThen_def)
  next
    case (Inr x)
    with Pair w1 assms(2)[of x w1] show ?thesis by (simp add: andThen_def)
  qed
qed

lemma invoke_keeps:
  assumes "\<And>w. P (eff w) = P w"
  shows "P (snd (invoke E c x eff w)) = P w"
  using assms by (simp add: invoke_def)

lemma loadExistingOCs_keeps:
  assumes "\<And>w x. P (w\<lparr>console := x\<rparr>) = P w" and "\<And>w x. P (w\<lparr>requests := x\<rparr>) = P w"
  shows "P (snd (loadExistingOCs U C E w)) = P w"
  using assms by (simp add: loadExistingOCs_def Let_def split: sum.splits)

lemma reply_keeps:
  assumes "\<And>w x. P (w\<lparr>replies := x\<rparr>) = P w"
  shows "P (snd (reply E txt w)) = P w"
  using assms by (simp add: reply_def invoke_def)

lemma resolveRole_keeps:
  assumes "\<And>w x y. P (w\<lparr>roles := x, auditReasons := y\<rparr>) = P w"
  shows "P (snd (resolveRole U E fn rn w)) = P w"
  using assms by (simp add: resolveRole_def invoke_def Let_def split: option.splits)

lemma copyEmbed_keeps:
  assumes "\<And>w x. P (w\<lparr>sent := x\<rparr>) = P w" and "\<And>w x. P (w\<lparr>console := x\<rparr>) = P w"
  shows "P (snd (copyEmbed E m ch w)) = P w"
  using assms by (simp add: copyEmbed_def invoke_def split: list.splits)


lemma assignRole_keeps:
  assumes "\<And>w x. P (w\<lparr>memberRoles := x\<rparr>) = P w"
  shows "P (snd (assignRole E m r w)) = P w"
  using assms by (simp add: assignRole_def invoke_def split: option.splits)

lemma logCreation_keeps:
  assumes "\<And>w x. P (w\<lparr>sent := x\<rparr>) = P w"
  shows "P (snd (logCreation C E m fn r ch w)) = P w"
  using assms by (simp add: logCreation_def invoke_def split: option.splits)

lemma afterChannel_keeps:
  assumes "\<And>w x. P (w\<lparr>sent := x\<rparr>) = P w" and "\<And>w x. P (w\<lparr>memberRoles := x\<rparr>) = P w"
  shows "P (snd (andThen (assignRole E m r) (\<lambda>_. logCreation C E m fn r ch) w)) = P w"
  by (intro andThen_keeps [where P = P] assignRole_keeps [where P = P]
        logCreation_keeps [where P = P] assms)

lemma resolveChannel_keeps:
  assumes "\<And>w x y. P (w\<lparr>channels := x, auditReasons := y\<rparr>) = P w"
    and "\<And>w x. P (w\<lparr>sent := x\<rparr>) = P w" and "\<And>w x. P (w\<lparr>console := x\<rparr>) = P w"
  shows "P (snd (resolveChannel C E m fn cn r w)) = P w"
proof (cases "find (\<lambda>c. chan_type c = GuildText \<and> chan_name c = cn) (channels w)")
  case None
  show ?thesis
    unfolding resolveChannel_def Let_def None option.case
    by (intro andThen_keeps [where P = P] invoke_keeps [where P = P]
          copyEmbed_keeps [where P = P] assms)
       (simp_all add: assms)
next
  case (Some ch)
  then show ?thesis by (simp add: resolveChannel_def)
qed

lemma provision_keeps:
  assumes "\<And>w x y. P (w\<lparr>roles := x, auditReasons := y\<rparr>) = P w"
    and "\<And>w x y. P (w\<lparr>channels := x, auditReasons := y\<rparr>) = P w"
    and "\<And>w x. P (w\<lparr>sent := x\<rparr>) = P w" and "\<And>w x. P (w\<lparr>console := x\<rparr>) = P w"
    and "\<And>w x. P (w\<lparr>memberRoles := x\<rparr>) = P w"
  shows "P (snd (provision U C E m fn parts w)) = P w"
  unfolding provision_def Let_def
  by (intro andThen_keeps [where P = P] invoke_keeps [where P = P]
        resolveRole_keeps [where P = P] resolveChannel_keeps [where P = P]
        assignRole_keeps [where P = P] logCreation_keeps [where P = P] assms) simp

lemma provision_replies: "replies (snd (provision U C E m fn parts w)) = replies w"
  by (rule provision_keeps [where P = replies]) simp_all

lemma provision_existingOCNames:
  "existingOCNames (snd (provision U C E m fn parts w)) = existingOCNames w"
  by (rule provision_keeps [where P = existingOCNames]) simp_all

text \<open>The roster call always returns a set.\<close>


lemma loadExistingOCs_fst:
  "fst (loadExistingOCs U C E w) = Inr (case fetchNames U C E of Inl e \<Rightarrow> {} | Inr names \<Rightarrow> names)"
  by (simp add: loadExistingOCs_def Let_def split: sum.splits)



lemma handleMessage_named:
  assumes "inScope C m" and "extractFullName m \<noteq> []"
  shows "handleMessage U C E m w =
     (let fullName = extractFullName m;
          names = (case fetchNames U C E of Inl e \<Rightarrow> {} | Inr names \<Rightarrow> names);
          w2 = (snd (loadExistingOCs U C E w))\<lparr>existingOCNames := names\<rparr>
      in if toLowerCase U fullName \<in> names then reply E (duplicateReply fullName) w2
         else if length (splitWs fullName) < 2 then reply E formatHelp w2
         else provision U C E m fullName (splitWs fullName) w2)"
proof -
  define names where "names = (case fetchNames U C E of Inl e \<Rightarrow> {} | Inr names \<Rightarrow> names)"
  define w1 where "w1 = snd (loadExistingOCs U C E w)"
  have l: "loadExistingOCs U C E w = (Inr names, w1)"
    using loadExistingOCs_fst [of U C E w]
    by (simp add: names_def w1_def prod_eq_iff)
  have "handleMessage U C E m w =
      andThen (loadExistingOCs U C E)
        (\<lambda>names w1.
           (let w2 = w1\<lparr>existingOCNames := names\<rparr>
            in if toLowerCase U (extractFullName m) \<in> existingOCNames w2
               then reply E (duplicateReply (extractFullName m)) w2
               else
                 (let parts = splitWs (extractFullName m)
                  in if length parts < 2 then reply E formatHelp w2
                     else provision U C E m (extractFullName m) parts w2))) w"
    using assms by (simp add: handleMessage_def Let_def)
  also have "\<dots> = (let w2 = w1\<lparr>existingOCNames := names\<rparr>
            in if toLowerCase U (extractFullName m) \<in> existingOCNames w2
               then reply E (duplicateReply (extractFullName m)) w2
               else
                 (let parts = splitWs (extractFullName m)
                  in if length parts < 2 then reply E formatHelp w2
                     else provision U C E m (extractFullName m) parts w2))"
    by (rule andThen_Inr [where f = "loadExistingOCs U C E", OF l])
  finally show ?thesis
    by (simp add: Let_def names_def [symmetric] w1_def [symmetric])
qed

lemma handleMessage_silent:
  "\<not> inScope C m \<or> extractFullName m = [] \<Longrightarrow> handleMessage U C E m w = (Inr (), w)"
  by (auto simp: handleMessage_def Let_def)


lemma messageCreate_caught:
  "fst (handleMessage U C E m w) = Inl err \<Longrightarrow>
   messageCreate U C E m w =
     (Inr (), (snd (handleMessage U C E m w))
        \<lparr>console := console (snd (handleMessage U C E m w))
           @ [ConsoleError (js ''Error handling OC submission:'') err]\<rparr>)"
  by (cases "handleMessage U C E m w") (simp add: messageCreate_def)

lemma messageCreate_returned:
  "fst (handleMessage U C E m w) = Inr u \<Longrightarrow>
   messageCreate U C E m w = (Inr (), snd (handleMessage U C E m w))"
  by (cases "handleMessage U C E m w") (simp add: messageCreate_def)

lemma messageCreate_keeps:
  assumes "\<And>w x. P (w\<lparr>console := x\<rparr>) = P w"
  shows "P (snd (messageCreate U C E m w)) = P (snd (handleMessage U C E m w))"
proof (cases "fst (handleMessage U C E m w)")
  case (Inl err)
  then show ?thesis by (simp add: messageCreate_caught assms)
next
  case (Inr u)
  then show ?thesis by (simp add: messageCreate_returned)
qed

section \<open>Scope guards\<close>

text \<open>
  Claim C6. A message of an automated sender without a webhook identity, a message
  outside a guild, in another guild than the configured one, or in another channel than
  the submissions channel is ignored: the handler returns normally and the whole state
  is as before (no request for the sheet, no role, no channel, no reply, no message
  sent, nothing on the console).
\<close>

theorem out_of_scope_ignored:
  assumes "(author_bot m \<and> \<not> truthy (webhookId m)) \<or> guild_id m = None
           \<or> guild_id m \<noteq> GUILD_ID C \<or> Some (channel_id m) \<noteq> SUBMISSIONS_CHANNEL_ID C"
  shows "messageCreate U C E m w = (Inr (), w)"
proof -
  from assms have "\<not> inScope C m"
    by (auto simp: inScope_def split: option.splits)
  then have "handleMessage U C E m w = (Inr (), w)"
    by (simp add: handleMessage_silent)
  then show ?thesis
    by (simp add: messageCreate_def)
qed

text \<open>A message of a bot without a webhook identity leaves the example guild as it was.\<close>

theorem out_of_scope_ignored_witness:
  "author_bot botMessage \<and> \<not> truthy (webhookId botMessage)
   \<and> messageCreate ascii_unicode exampleConfig exampleEnv botMessage exampleWorld
       = (Inr (), exampleWorld)"
proof -
  have h: "author_bot botMessage \<and> \<not> truthy (webhookId botMessage)"
    by (simp add: botMessage_def exampleMessage_def truthy_def)
  with out_of_scope_ignored [of botMessage exampleConfig ascii_unicode exampleEnv exampleWorld]
  show ?thesis by simp
qed

section \<open>slugify and the slice\<close>

text \<open>
  What holds of every result of \<open>slugify\<close>, whatever the engine's normalisation and
  lowercasing do: at most 90 code units, each of them in \<open>[a-z0-9-]\<close>, and no hyphen in
  front.
\<close>

lemma slugify_length: "length (slugify U x) \<le> 90"
  by (simp add: slugify_def)

lemma hyphen_not_slug: "\<not> isSlugChar hyphen"
  by (simp add: isSlugChar_def hyphen_def)

lemma replaceNonAlnum_chars: "c \<in> set (replaceNonAlnum s) \<Longrightarrow> isSlugChar c \<or> c = hyphen"
  by (induction s rule: replaceNonAlnum.induct) (auto split: if_splits)

lemma trimHyphens_subset: "set (trimHyphens s) \<subseteq> set s"
  by (auto simp: trimHyphens_def Let_def split: list.splits if_splits dest: in_set_butlastD)

lemma slugify_chars: "c \<in> set (slugify U x) \<Longrightarrow> isSlugChar c \<or> c = hyphen"
proof -
  assume "c \<in> set (slugify U x)"
  then have "c \<in> set (trimHyphens (replaceNonAlnum
      (toLowerCase U (filter (\<lambda>c. \<not> isCombiningMark c) (normalizeNFKD U x)))))"
    unfolding slugify_def by (rule in_set_takeD)
  then have "c \<in> set (replaceNonAlnum
      (toLowerCase U (filter (\<lambda>c. \<not> isCombiningMark c) (normalizeNFKD U x))))"
    using trimHyphens_subset by (rule rev_subsetD)
  then show ?thesis
    by (rule replaceNonAlnum_chars)
qed

lemma replaceNonAlnum_after_hyphen:
  "replaceNonAlnum s = hyphen # t \<Longrightarrow> t = [] \<or> hd t \<noteq> hyphen"
proof (cases s)
  case Nil
  then show "replaceNonAlnum s = hyphen # t \<Longrightarrow> t = [] \<or> hd t \<noteq> hyphen"
    by simp
next
  case (Cons c cs)
  assume r: "replaceNonAlnum s = hyphen # t"
  show "t = [] \<or> hd t \<noteq> hyphen"
  proof (cases "isSlugChar c")
    case True
    with r Cons hyphen_not_slug show ?thesis by auto
  next
    case False
    with r Cons have t: "t = replaceNonAlnum (dropWhile (\<lambda>d. \<not> isSlugChar d) cs)"
      by simp
    show ?thesis
    proof (cases "dropWhile (\<lambda>d. \<not> isSlugChar d) cs")
      case Nil
      with t show ?thesis by simp
    next
      case (Cons d ds)
      with hd_dropWhile [of "\<lambda>d. \<not> isSlugChar d" cs] have "isSlugChar d"
        by simp
      with t Cons hyphen_not_slug show ?thesis by auto
    qed
  qed
qed

lemma trimHyphens_no_leading_hyphen:
  assumes "\<And>t. s = hyphen # t \<Longrightarrow> t = [] \<or> hd t \<noteq> hyphen"
    and "trimHyphens s \<noteq> []"
  shows "hd (trimHyphens s) \<noteq> hyphen"
proof -
  let ?s1 = "case s of [] \<Rightarrow> [] | c # cs \<Rightarrow> if c = hyphen then cs else s"
  have h: "?s1 = [] \<or> hd ?s1 \<noteq> hyphen"
    using assms(1) by (cases s) auto
  have "trimHyphens s = ?s1 \<or> trimHyphens s = butlast ?s1"
    by (simp add: trimHyphens_def Let_def)
  moreover have "butlast ?s1 \<noteq> [] \<Longrightarrow> hd (butlast ?s1) = hd ?s1"
    by (cases ?s1) (auto split: if_splits)
  ultimately show ?thesis
    using h assms(2) by auto
qed

lemma slugify_no_leading_hyphen: "slugify U x \<noteq> [] \<Longrightarrow> hd (slugify U x) \<noteq> hyphen"
proof -
  let ?r = "replaceNonAlnum
      (toLowerCase U (filter (\<lambda>c. \<not> isCombiningMark c) (normalizeNFKD U x)))"
  assume n: "slugify U x \<noteq> []"
  then have t: "trimHyphens ?r \<noteq> []"
    by (auto simp: slugify_def)
  have "hd (trimHyphens ?r) \<noteq> hyphen"
    by (rule trimHyphens_no_leading_hyphen [OF _ t]) (rule replaceNonAlnum_after_hyphen)
  moreover from n have "hd (slugify U x) = hd (trimHyphens ?r)"
    by (cases "trimHyphens ?r") (auto simp: slugify_def)
  ultimately show ?thesis by simp
qed

text \<open>
  Claim C2. The claim asks that \<open>slugify\<close> is idempotent and that its result has no
  trailing hyphen. The slice to 90 code units comes after the hyphens are trimmed, so
  a name whose slug has a hyphen as its 90th code unit keeps that hyphen at the end:
  for 89 letters a, a space and a letter b the result is 89 letters a and a hyphen, and
  a second \<open>slugify\<close> removes the hyphen.
\<close>

theorem slugify_trailing_hyphen_after_slice:
  "slugify ascii_unicode longName = replicate 89 0x61 @ js ''-''
   \<and> slugify ascii_unicode (slugify ascii_unicode longName) = replicate 89 0x61
   \<and> slugify ascii_unicode (slugify ascii_unicode longName) \<noteq> slugify ascii_unicode longName"
  by code_simp

section \<open>Embeds\<close>

lemma extractFullName_first_embed:
  "extractFullName (m\<lparr>embeds := e # e' # es\<rparr>) = extractFullName (m\<lparr>embeds := [e]\<rparr>)"
  by (simp add: extractFullName_def embedName_def split: option.splits)

lemma inScope_embeds: "inScope C (m\<lparr>embeds := es\<rparr>) = inScope C m"
  by (simp add: inScope_def split: option.splits)

lemma copyEmbed_first_embed:
  "copyEmbed E (m\<lparr>embeds := e # e' # es\<rparr>) = copyEmbed E (m\<lparr>embeds := [e]\<rparr>)"
  by (intro ext) (simp add: copyEmbed_def)

lemma resolveChannel_first_embed:
  "resolveChannel C E (m\<lparr>embeds := e # e' # es\<rparr>)
     = resolveChannel C E (m\<lparr>embeds := [e]\<rparr>)"
  by (intro ext)
     (simp add: resolveChannel_def copyEmbed_first_embed Let_def cong: option.case_cong if_cong)

lemma assignRole_embeds: "assignRole E (m\<lparr>embeds := es\<rparr>) = assignRole E m"
  by (intro ext) (simp add: assignRole_def cong: option.case_cong if_cong)

lemma logCreation_embeds: "logCreation C E (m\<lparr>embeds := es\<rparr>) = logCreation C E m"
  by (intro ext) (simp add: logCreation_def logText_def cong: option.case_cong if_cong)

lemma provision_first_embed:
  "provision U C E (m\<lparr>embeds := e # e' # es\<rparr>) = provision U C E (m\<lparr>embeds := [e]\<rparr>)"
  by (intro ext)
     (simp add: provision_def resolveChannel_first_embed assignRole_embeds logCreation_embeds)

lemma handleMessage_first_embed:
  "handleMessage U C E (m\<lparr>embeds := e # e' # es\<rparr>) w
     = handleMessage U C E (m\<lparr>embeds := [e]\<rparr>) w"
  by (simp add: handleMessage_def inScope_embeds extractFullName_first_embed
        provision_first_embed Let_def cong: if_cong)

text \<open>
  Claim C9. Only the first embed of a message is read. The handler does the same on a
  message with the embeds \<open>e # es\<close> as on the message with the single embed \<open>e\<close>,
  whatever the titles in \<open>es\<close> are. When there is no embed, or the first embed has no
  title, or its title has no match of the pattern, the name is the one parsed from the
  text content. The copy into a new channel sends the first embed alone.
\<close>

theorem only_first_embed_consulted:
  "messageCreate U C E (m\<lparr>embeds := e # es\<rparr>) w = messageCreate U C E (m\<lparr>embeds := [e]\<rparr>) w
   \<and> (embeds m = []
        \<or> (\<exists>e es. embeds m = e # es
              \<and> (title e = None \<or> (\<exists>t. title e = Some t \<and> searchOC t = None)))
      \<longrightarrow> extractFullName m = parseOCName (content m))
   \<and> (\<not> rejects E EmbedSend \<longrightarrow>
        sent (snd (copyEmbed E (m\<lparr>embeds := e # es\<rparr>) ch w))
          = sent w @ [(chan_id ch, Embeds [e])])"
proof (intro conjI impI)
  show "messageCreate U C E (m\<lparr>embeds := e # es\<rparr>) w
      = messageCreate U C E (m\<lparr>embeds := [e]\<rparr>) w"
    by (cases es) (simp_all add: messageCreate_def handleMessage_first_embed)
next
  assume "embeds m = []
        \<or> (\<exists>e es. embeds m = e # es
              \<and> (title e = None \<or> (\<exists>t. title e = Some t \<and> searchOC t = None)))"
  then have "embedName m = None"
    by (auto simp: embedName_def)
  then show "extractFullName m = parseOCName (content m)"
    by (simp add: extractFullName_def)
next
  assume "\<not> rejects E EmbedSend"
  then show "sent (snd (copyEmbed E (m\<lparr>embeds := e # es\<rparr>) ch w))
          = sent w @ [(chan_id ch, Embeds [e])]"
    by (simp add: copyEmbed_def invoke_def)
qed

text \<open>
  Two embeds, the second with the title \<open>OC: Mito Uzumaki\<close>, and the text
  \<open>OC: Rock Lee\<close>: the name is Rock Lee, and the first embed is the one copied.
\<close>

theorem only_first_embed_consulted_witness:
  "(\<exists>e es. embeds twoEmbeds = e # es
       \<and> (title e = None \<or> (\<exists>t. title e = Some t \<and> searchOC t = None)))
   \<and> extractFullName twoEmbeds = js ''Rock Lee''
   \<and> \<not> rejects exampleEnv EmbedSend
   \<and> sent (snd (copyEmbed exampleEnv twoEmbeds exampleChannel exampleWorld))
       = [(js ''600'', Embeds [\<lparr> title = Some (js ''Character sheet''), embedData = js ''first'' \<rparr>])]"
proof -
  have t: "searchOC (js ''Character sheet'') = None"
    by code_simp
  have h: "\<exists>e es. embeds twoEmbeds = e # es
       \<and> (title e = None \<or> (\<exists>t. title e = Some t \<and> searchOC t = None))"
    using t by (simp add: twoEmbeds_def)
  have p: "parseOCName (content twoEmbeds) = js ''Rock Lee''"
    by code_simp
  have r: "\<not> rejects exampleEnv EmbedSend"
    by (simp add: exampleEnv_def)
  have m: "twoEmbeds\<lparr>embeds := [\<lparr> title = Some (js ''Character sheet''), embedData = js ''first'' \<rparr>,
                   \<lparr> title = Some (js ''OC: Mito Uzumaki''), embedData = js ''second'' \<rparr>]\<rparr> = twoEmbeds"
    by (simp add: twoEmbeds_def)
  have s: "sent exampleWorld = []" "chan_id exampleChannel = js ''600''"
    by (simp_all add: exampleWorld_def exampleChannel_def)
  from only_first_embed_consulted
         [where U = ascii_unicode and C = exampleConfig and E = exampleEnv and m = twoEmbeds
            and e = "\<lparr> title = Some (js ''Character sheet''), embedData = js ''first'' \<rparr>"
            and es = "[\<lparr> title = Some (js ''OC: Mito Uzumaki''), embedData = js ''second'' \<rparr>]"
            and w = exampleWorld and ch = exampleChannel]
       h p r m s
  show ?thesis by simp
qed

section \<open>The duplicate check\<close>

lemma duplicateReply_not_formatHelp: "duplicateReply fn \<noteq> formatHelp"
proof -
  have "hd (duplicateReply fn) = 0x41"
    by (simp add: duplicateReply_def js_def)
  moreover have "hd formatHelp = 0x50"
    by (simp add: formatHelp_def js_def)
  ultimately show ?thesis by auto
qed

lemma reply_replies:
  "replies (snd (reply E txt w)) = (if rejects E Reply then replies w else replies w @ [txt])"
  by (simp add: reply_def invoke_def)

text \<open>What the handler answers to a message in scope that carries a name.\<close>

lemma handleMessage_replies:
  assumes "inScope C m" and "extractFullName m \<noteq> []"
  shows "replies (snd (handleMessage U C E m w)) =
     (if toLowerCase U (extractFullName m)
           \<in> (case fetchNames U C E of Inl e \<Rightarrow> {} | Inr names \<Rightarrow> names)
      then (if rejects E Reply then replies w
            else replies w @ [duplicateReply (extractFullName m)])
      else if length (splitWs (extractFullName m)) < 2
      then (if rejects E Reply then replies w else replies w @ [formatHelp])
      else replies w)"
  using assms
  by (simp add: handleMessage_named Let_def reply_replies provision_replies
        loadExistingOCs_keeps [where P = replies])

lemma messageCreate_replies:
  assumes "inScope C m" and "extractFullName m \<noteq> []"
  shows "replies (snd (messageCreate U C E m w)) =
     (if toLowerCase U (extractFullName m)
           \<in> (case fetchNames U C E of Inl e \<Rightarrow> {} | Inr names \<Rightarrow> names)
      then (if rejects E Reply then replies w
            else replies w @ [duplicateReply (extractFullName m)])
      else if length (splitWs (extractFullName m)) < 2
      then (if rejects E Reply then replies w else replies w @ [formatHelp])
      else replies w)"
  using handleMessage_replies [OF assms] by (simp add: messageCreate_keeps [where P = replies])

lemma duplicate_reply_iff:
  assumes "inScope C m" and "extractFullName m \<noteq> []" and "\<not> rejects E Reply"
  shows "(replies (snd (messageCreate U C E m w))
            = replies w @ [duplicateReply (extractFullName m)])
         = (toLowerCase U (extractFullName m)
              \<in> (case fetchNames U C E of Inl e \<Rightarrow> {} | Inr names \<Rightarrow> names))"
  using assms(3) duplicateReply_not_formatHelp [of "extractFullName m"]
  by (auto simp: messageCreate_replies [OF assms(1,2)])

lemma handleMessage_existingOCNames:
  "existingOCNames (snd (handleMessage U C E m w)) =
     (if inScope C m \<and> extractFullName m \<noteq> []
      then (case fetchNames U C E of Inl e \<Rightarrow> {} | Inr names \<Rightarrow> names)
      else existingOCNames w)"
proof (cases "inScope C m \<and> extractFullName m \<noteq> []")
  case True
  then show ?thesis
    by (simp add: handleMessage_named Let_def provision_existingOCNames
          reply_keeps [where P = existingOCNames])
next
  case False
  then show ?thesis by (auto simp: handleMessage_silent)
qed

lemma onReady_existingOCNames:
  "existingOCNames (onReady U C E tag w)
     = (case fetchNames U C E of Inl e \<Rightarrow> {} | Inr names \<Rightarrow> names)"
  by (simp add: onReady_def loadExistingOCs_def Let_def split: sum.splits)

text \<open>
  Claim C10. The handler never adds a name to \<open>existingOCNames\<close>: after a message in
  scope that carries a name the variable holds the set that this run fetched (the empty
  set when the fetch failed), after any other message it holds what it held before, and
  the ready handler assigns the fetched set as well. So when the same message is handled
  again, in the state the first run left and whatever that run provisioned, it gets the
  duplicate reply exactly when the sheet fetched by the second run contains its name.
\<close>

theorem roster_only_replaced_by_fetch:
  "existingOCNames (snd (messageCreate U C E m w))
     = (if inScope C m \<and> extractFullName m \<noteq> []
        then (case fetchNames U C E of Inl e \<Rightarrow> {} | Inr names \<Rightarrow> names)
        else existingOCNames w)
   \<and> existingOCNames (onReady U C E tag w)
     = (case fetchNames U C E of Inl e \<Rightarrow> {} | Inr names \<Rightarrow> names)
   \<and> (inScope C m \<and> extractFullName m \<noteq> [] \<and> \<not> rejects E2 Reply \<longrightarrow>
        (replies (snd (messageCreate U C E2 m (snd (messageCreate U C E m w))))
           = replies (snd (messageCreate U C E m w)) @ [duplicateReply (extractFullName m)])
        = (toLowerCase U (extractFullName m)
             \<in> (case fetchNames U C E2 of Inl e \<Rightarrow> {} | Inr names \<Rightarrow> names)))"
  by (simp add: messageCreate_keeps [where P = existingOCNames] handleMessage_existingOCNames
        onReady_existingOCNames duplicate_reply_iff)

text \<open>
  Mito Uzumaki is provisioned, and the sheet does not change: the second run does not
  reply. Once the sheet has the name, the second run sends the duplicate reply.
\<close>

theorem roster_only_replaced_by_fetch_witness:
  "inScope exampleConfig (exampleMessage (js ''OC: Mito Uzumaki''))
   \<and> extractFullName (exampleMessage (js ''OC: Mito Uzumaki'')) = js ''Mito Uzumaki''
   \<and> \<not> rejects exampleEnv Reply \<and> \<not> rejects updatedEnv Reply
   \<and> existingOCNames (snd (messageCreate ascii_unicode exampleConfig exampleEnv
         (exampleMessage (js ''OC: Mito Uzumaki'')) exampleWorld))
       = {js ''sakura haruno'', js ''gaara''}
   \<and> replies (snd (messageCreate ascii_unicode exampleConfig exampleEnv
         (exampleMessage (js ''OC: Mito Uzumaki''))
         (snd (messageCreate ascii_unicode exampleConfig exampleEnv
            (exampleMessage (js ''OC: Mito Uzumaki'')) exampleWorld))))
       \<noteq> replies (snd (messageCreate ascii_unicode exampleConfig exampleEnv
            (exampleMessage (js ''OC: Mito Uzumaki'')) exampleWorld))
           @ [duplicateReply (js ''Mito Uzumaki'')]
   \<and> replies (snd (messageCreate ascii_unicode exampleConfig updatedEnv
         (exampleMessage (js ''OC: Mito Uzumaki''))
         (snd (messageCreate ascii_unicode exampleConfig exampleEnv
            (exampleMessage (js ''OC: Mito Uzumaki'')) exampleWorld))))
       = replies (snd (messageCreate ascii_unicode exampleConfig exampleEnv
            (exampleMessage (js ''OC: Mito Uzumaki'')) exampleWorld))
           @ [duplicateReply (js ''Mito Uzumaki'')]"
proof -
  let ?m = "exampleMessage (js ''OC: Mito Uzumaki'')"
  have s: "inScope exampleConfig ?m"
    by code_simp
  have n: "extractFullName ?m = js ''Mito Uzumaki''"
    by code_simp
  have r: "\<not> rejects exampleEnv Reply" "\<not> rejects updatedEnv Reply"
    by (simp_all add: exampleEnv_def updatedEnv_def)
  have f1: "(case fetchNames ascii_unicode exampleConfig exampleEnv of
               Inl e \<Rightarrow> {} | Inr names \<Rightarrow> names) = {js ''sakura haruno'', js ''gaara''}"
    by code_simp
  have f2: "(case fetchNames ascii_unicode exampleConfig updatedEnv of
               Inl e \<Rightarrow> {} | Inr names \<Rightarrow> names)
            = {js ''sakura haruno'', js ''gaara'', js ''mito uzumaki''}"
    by code_simp
  have l: "toLowerCase ascii_unicode (js ''Mito Uzumaki'') = js ''mito uzumaki''"
    by code_simp
  have d: "js ''mito uzumaki'' \<notin> {js ''sakura haruno'', js ''gaara''}"
    "js ''Mito Uzumaki'' \<noteq> []"
    by (simp_all add: js_def)
  from roster_only_replaced_by_fetch
         [of ascii_unicode exampleConfig exampleEnv ?m exampleWorld "[]" exampleEnv]
       roster_only_replaced_by_fetch
         [of ascii_unicode exampleConfig exampleEnv ?m exampleWorld "[]" updatedEnv]
       s n r f1 f2 l d
  show ?thesis by simp
qed

lemma handleMessage_duplicate_keeps:
  assumes "inScope C m" and "extractFullName m \<noteq> []"
    and "toLowerCase U (extractFullName m)
           \<in> (case fetchNames U C E of Inl e \<Rightarrow> {} | Inr names \<Rightarrow> names)"
    and "\<And>w x. P (w\<lparr>console := x\<rparr>) = P w" and "\<And>w x. P (w\<lparr>requests := x\<rparr>) = P w"
    and "\<And>w x. P (w\<lparr>replies := x\<rparr>) = P w" and "\<And>w x. P (w\<lparr>existingOCNames := x\<rparr>) = P w"
  shows "P (snd (messageCreate U C E m w)) = P w"
  using assms(1-3)
  by (simp add: messageCreate_keeps [where P = P] assms(4-7) handleMessage_named Let_def
        reply_keeps [where P = P] loadExistingOCs_keeps [where P = P])

text \<open>
  Claim C3. For a message in scope that carries a name, with \<open>names\<close> the set that the
  refresh returns: the test is whether the lowercased name is in \<open>names\<close>, and it comes
  before the count of the parts. A name in the roster gets the duplicate reply, however
  many parts it has, and no role or channel is made; the format-help reply is only sent
  for a name that is not in the roster; and two messages whose names have the same
  lowercase form either both get the duplicate reply or neither does.
\<close>

theorem duplicate_check_before_part_count:
  assumes "inScope C m" and "extractFullName m \<noteq> []"
    and "fst (loadExistingOCs U C E w) = Inr names" and "\<not> rejects E Reply"
  shows "(toLowerCase U (extractFullName m) \<in> names \<longrightarrow>
            replies (snd (messageCreate U C E m w))
              = replies w @ [duplicateReply (extractFullName m)]
            \<and> roles (snd (messageCreate U C E m w)) = roles w
            \<and> channels (snd (messageCreate U C E m w)) = channels w)
         \<and> (replies (snd (messageCreate U C E m w)) = replies w @ [formatHelp] \<longrightarrow>
              toLowerCase U (extractFullName m) \<notin> names)
         \<and> (\<forall>m'. inScope C m' \<and> extractFullName m' \<noteq> []
                \<and> toLowerCase U (extractFullName m') = toLowerCase U (extractFullName m) \<longrightarrow>
                (replies (snd (messageCreate U C E m' w))
                   = replies w @ [duplicateReply (extractFullName m')])
                = (replies (snd (messageCreate U C E m w))
                   = replies w @ [duplicateReply (extractFullName m)]))"
proof -
  have names: "names = (case fetchNames U C E of Inl e \<Rightarrow> {} | Inr names \<Rightarrow> names)"
    using assms(3) by (simp add: loadExistingOCs_fst)
  have a: "toLowerCase U (extractFullName m) \<in> names \<longrightarrow>
            replies (snd (messageCreate U C E m w))
              = replies w @ [duplicateReply (extractFullName m)]
            \<and> roles (snd (messageCreate U C E m w)) = roles w
            \<and> channels (snd (messageCreate U C E m w)) = channels w"
    using assms(1,2,4)
    by (simp add: names duplicate_reply_iff handleMessage_duplicate_keeps [where P = roles]
          handleMessage_duplicate_keeps [where P = channels])
  have b: "replies (snd (messageCreate U C E m w)) = replies w @ [formatHelp] \<longrightarrow>
              toLowerCase U (extractFullName m) \<notin> names"
    using assms(4) duplicateReply_not_formatHelp [of "extractFullName m"]
    by (auto simp: names messageCreate_replies [OF assms(1,2)])
  have c: "\<forall>m'. inScope C m' \<and> extractFullName m' \<noteq> []
                \<and> toLowerCase U (extractFullName m') = toLowerCase U (extractFullName m) \<longrightarrow>
                (replies (snd (messageCreate U C E m' w))
                   = replies w @ [duplicateReply (extractFullName m')])
                = (replies (snd (messageCreate U C E m w))
                   = replies w @ [duplicateReply (extractFullName m)])"
    using assms(1,2,4) by (simp add: duplicate_reply_iff)
  from a b c show ?thesis by blast
qed

text \<open>
  The sheet has the row Gaara. The message \<open>gaara\<close> has one part only and still gets
  the duplicate reply, not the format help; so does the message \<open>GAARA\<close>.
\<close>

theorem duplicate_check_before_part_count_witness:
  "inScope exampleConfig (exampleMessage (js ''gaara''))
   \<and> extractFullName (exampleMessage (js ''gaara'')) = js ''gaara''
   \<and> length (splitWs (js ''gaara'')) = 1
   \<and> fst (loadExistingOCs ascii_unicode exampleConfig exampleEnv exampleWorld)
       = Inr {js ''sakura haruno'', js ''gaara''}
   \<and> \<not> rejects exampleEnv Reply
   \<and> replies (snd (messageCreate ascii_unicode exampleConfig exampleEnv
         (exampleMessage (js ''gaara'')) exampleWorld)) = [duplicateReply (js ''gaara'')]
   \<and> roles (snd (messageCreate ascii_unicode exampleConfig exampleEnv
         (exampleMessage (js ''gaara'')) exampleWorld)) = []
   \<and> replies (snd (messageCreate ascii_unicode exampleConfig exampleEnv
         (exampleMessage (js ''gaara'')) exampleWorld)) \<noteq> [formatHelp]
   \<and> replies (snd (messageCreate ascii_unicode exampleConfig exampleEnv
         (exampleMessage (js ''GAARA'')) exampleWorld)) = [duplicateReply (js ''GAARA'')]"
proof -
  let ?m = "exampleMessage (js ''gaara'')"
  let ?m' = "exampleMessage (js ''GAARA'')"
  have s: "inScope exampleConfig ?m" "inScope exampleConfig ?m'"
    by code_simp+
  have n: "extractFullName ?m = js ''gaara''" "extractFullName ?m' = js ''GAARA''"
    by code_simp+
  have p: "length (splitWs (js ''gaara'')) = 1"
    by code_simp
  have f: "fst (loadExistingOCs ascii_unicode exampleConfig exampleEnv exampleWorld)
       = Inr {js ''sakura haruno'', js ''gaara''}"
    by code_simp
  have r: "\<not> rejects exampleEnv Reply"
    by (simp add: exampleEnv_def)
  have l: "toLowerCase ascii_unicode (js ''gaara'') = js ''gaara''"
    "toLowerCase ascii_unicode (js ''GAARA'') = js ''gaara''"
    by code_simp+
  have e: "js ''gaara'' \<noteq> []" "js ''GAARA'' \<noteq> []"
    by (simp_all add: js_def)
  have w: "replies exampleWorld = []" "roles exampleWorld = []"
    by (simp_all add: exampleWorld_def)
  have nf: "duplicateReply (js ''gaara'') \<noteq> formatHelp"
    by (rule duplicateReply_not_formatHelp)
  have ne: "extractFullName ?m \<noteq> []" "extractFullName ?m' \<noteq> []"
    using n e by simp_all
  note t = duplicate_check_before_part_count
             [of exampleConfig ?m ascii_unicode exampleEnv exampleWorld
                 "{js ''sakura haruno'', js ''gaara''}", OF s(1) ne(1) f r]
  from t l n have d: "replies (snd (messageCreate ascii_unicode exampleConfig exampleEnv ?m exampleWorld))
          = replies exampleWorld @ [duplicateReply (js ''gaara'')]
        \<and> roles (snd (messageCreate ascii_unicode exampleConfig exampleEnv ?m exampleWorld))
          = roles exampleWorld"
    by simp
  from t have "inScope exampleConfig ?m' \<and> extractFullName ?m' \<noteq> []
        \<and> toLowerCase ascii_unicode (extractFullName ?m')
            = toLowerCase ascii_unicode (extractFullName ?m) \<longrightarrow>
        (replies (snd (messageCreate ascii_unicode exampleConfig exampleEnv ?m' exampleWorld))
           = replies exampleWorld @ [duplicateReply (extractFullName ?m')])
        = (replies (snd (messageCreate ascii_unicode exampleConfig exampleEnv ?m exampleWorld))
           = replies exampleWorld @ [duplicateReply (extractFullName ?m)])"
    by blast
  with s ne n l d
  have d': "replies (snd (messageCreate ascii_unicode exampleConfig exampleEnv ?m' exampleWorld))
          = replies exampleWorld @ [duplicateReply (js ''GAARA'')]"
    by simp
  from d d' s n p f r w nf show ?thesis by simp
qed

section \<open>What provisioning creates\<close>

lemma andThen_keeps_snd:
  assumes "\<And>x w. P (snd (g x w)) = P w"
  shows "P (snd (andThen f g w)) = P (snd (f w))"
proof (cases "f w")
  case (Pair r w1)
  show ?thesis
  proof (cases r)
    case (Inl e)
    with Pair show ?thesis by (simp add: andThen_def)
  next
    case (Inr x)
    with Pair assms [of x w1] show ?thesis by (simp add: andThen_def)
  qed
qed

lemma find_append_found: "find P xs = Some y \<Longrightarrow> find P (xs @ ys) = Some y"
  by (induction xs) (auto split: if_splits)

lemma find_append_new: "find P xs = None \<Longrightarrow> P x \<Longrightarrow> find P (xs @ [x]) = Some x"
  by (induction xs) (auto split: if_splits)

lemma buildOverwrites_everyone:
  "everyone_id w' = everyone_id w \<Longrightarrow> buildOverwrites C w' r = buildOverwrites C w r"
  by (simp add: buildOverwrites_def)

lemma resolveRole_result:
  "resolveRole U E fn rn w =
     (case find (\<lambda>r. toLowerCase U (role_name r) = toLowerCase U rn) (roles w) of
        Some r \<Rightarrow> (Inr r, w)
      | None \<Rightarrow>
          if rejects E RolesCreate then (Inl (Rejected RolesCreate), w)
          else (Inr \<lparr> role_id = newRoleId E, role_name = rn \<rparr>,
                w\<lparr>roles := roles w @ [\<lparr> role_id = newRoleId E, role_name = rn \<rparr>],
                  auditReasons := auditReasons w @ [js ''Created OC role for '' @ fn]\<rparr>))"
  by (simp add: resolveRole_def invoke_def Let_def split: option.splits)

lemma resolveChannel_channels:
  "channels (snd (resolveChannel C E m fn cn r w)) =
     (if find (\<lambda>c. chan_type c = GuildText \<and> chan_name c = cn) (channels w) = None
         \<and> \<not> rejects E ChannelsCreate
      then channels w
           @ [\<lparr> chan_id = newChannelId E, chan_name = cn, chan_type = GuildText,
                parent = (if truthy (OC_CATEGORY_ID C) then OC_CATEGORY_ID C else None),
                permissionOverwrites = buildOverwrites C w r \<rparr>]
      else channels w)"
proof (cases "find (\<lambda>c. chan_type c = GuildText \<and> chan_name c = cn) (channels w)")
  case (Some ch)
  then show ?thesis by (simp add: resolveChannel_def)
next
  case None
  show ?thesis
  proof (cases "rejects E ChannelsCreate")
    case True
    then show ?thesis
      by (simp add: resolveChannel_def None Let_def andThen_def invoke_def)
  next
    case False
    have rest: "\<And>ch cid w. channels
        (snd (andThen (invoke E WelcomeSend ()
                 (\<lambda>w. w\<lparr>sent := sent w @ [(cid, Text (welcomeText fn))]\<rparr>))
               (\<lambda>_. andThen (copyEmbed E m ch) (\<lambda>_. finish ch)) w)) = channels w"
      by (intro andThen_keeps [where P = channels] invoke_keeps [where P = channels]
            copyEmbed_keeps [where P = channels]) simp_all
    from False show ?thesis
      unfolding resolveChannel_def None option.case Let_def
      by (simp add: andThen_Inr [OF invoke_ok] rest)
  qed
qed

text \<open>The steps after the role is resolved: no role is made, at most one channel.\<close>

lemma afterRole_roles:
  "roles (snd (andThen (resolveChannel C E m fn cn r)
                 (\<lambda>ch. andThen (assignRole E m r) (\<lambda>_. logCreation C E m fn r ch)) w))
     = roles w"
  by (intro andThen_keeps [where P = roles] resolveChannel_keeps [where P = roles]
        assignRole_keeps [where P = roles] logCreation_keeps [where P = roles]) simp_all

lemma afterRole_channels:
  "channels (snd (andThen (resolveChannel C E m fn cn r)
                 (\<lambda>ch. andThen (assignRole E m r) (\<lambda>_. logCreation C E m fn r ch)) w))
     = channels (snd (resolveChannel C E m fn cn r w))"
  by (intro andThen_keeps_snd [where P = channels] andThen_keeps [where P = channels]
        assignRole_keeps [where P = channels] logCreation_keeps [where P = channels]) simp_all

lemma provision_roles:
  "roles (snd (provision U C E m fn parts w)) =
     (if \<not> rejects E GuildsFetch
         \<and> find (\<lambda>r. toLowerCase U (role_name r) = toLowerCase U (parts ! 0)) (roles w) = None
         \<and> \<not> rejects E RolesCreate
      then roles w @ [\<lparr> role_id = newRoleId E, role_name = parts ! 0 \<rparr>]
      else roles w)"
proof (cases "rejects E GuildsFetch")
  case True
  then show ?thesis
    by (simp add: provision_def Let_def andThen_Inl [OF invoke_rejected])
next
  case False
  have "roles (snd (provision U C E m fn parts w))
      = roles (snd (resolveRole U E fn (parts ! 0) w))"
    using False unfolding provision_def Let_def
    by (simp add: andThen_Inr [OF invoke_ok] andThen_keeps_snd [where P = roles] afterRole_roles)
  with False show ?thesis
    by (simp add: resolveRole_result split: option.splits)
qed

lemma provision_channels:
  "channels (snd (provision U C E m fn parts w)) =
     (if \<not> rejects E GuildsFetch
         \<and> (find (\<lambda>r. toLowerCase U (role_name r) = toLowerCase U (parts ! 0)) (roles w) \<noteq> None
             \<or> \<not> rejects E RolesCreate)
         \<and> find (\<lambda>c. chan_type c = GuildText \<and> chan_name c = js ''oc-'' @ slugify U fn)
              (channels w) = None
         \<and> \<not> rejects E ChannelsCreate
      then channels w
           @ [\<lparr> chan_id = newChannelId E, chan_name = js ''oc-'' @ slugify U fn,
                chan_type = GuildText,
                parent = (if truthy (OC_CATEGORY_ID C) then OC_CATEGORY_ID C else None),
                permissionOverwrites =
                  buildOverwrites C w
                    (case find (\<lambda>r. toLowerCase U (role_name r) = toLowerCase U (parts ! 0))
                            (roles w) of
                       Some r \<Rightarrow> r
                     | None \<Rightarrow> \<lparr> role_id = newRoleId E, role_name = parts ! 0 \<rparr>) \<rparr>]
      else channels w)"
proof (cases "rejects E GuildsFetch")
  case True
  then show ?thesis
    by (simp add: provision_def Let_def andThen_Inl [OF invoke_rejected])
next
  case False
  let ?K = "\<lambda>r. andThen (resolveChannel C E m fn (js ''oc-'' @ slugify U fn) r)
                 (\<lambda>ch. andThen (assignRole E m r) (\<lambda>_. logCreation C E m fn r ch))"
  have p: "provision U C E m fn parts w = andThen (resolveRole U E fn (parts ! 0)) ?K w"
    using False unfolding provision_def Let_def
    by (simp add: andThen_Inr [OF invoke_ok])
  show ?thesis
  proof (cases "find (\<lambda>r. toLowerCase U (role_name r) = toLowerCase U (parts ! 0)) (roles w)")
    case (Some r)
    then have "resolveRole U E fn (parts ! 0) w = (Inr r, w)"
      by (simp add: resolveRole_result)
    then have "provision U C E m fn parts w = ?K r w"
      unfolding p by (rule andThen_Inr)
    with False Some show ?thesis
      by (simp add: afterRole_channels resolveChannel_channels)
  next
    case None
    show ?thesis
    proof (cases "rejects E RolesCreate")
      case True
      with None have "resolveRole U E fn (parts ! 0) w = (Inl (Rejected RolesCreate), w)"
        by (simp add: resolveRole_result)
      then have "provision U C E m fn parts w = (Inl (Rejected RolesCreate), w)"
        unfolding p by (rule andThen_Inl)
      with None True show ?thesis by simp
    next
      case nr: False
      let ?r = "\<lparr> role_id = newRoleId E, role_name = parts ! 0 \<rparr>"
      let ?w = "w\<lparr>roles := roles w @ [?r],
                  auditReasons := auditReasons w @ [js ''Created OC role for '' @ fn]\<rparr>"
      from None nr have "resolveRole U E fn (parts ! 0) w = (Inr ?r, ?w)"
        by (simp add: resolveRole_result)
      then have "provision U C E m fn parts w = ?K ?r ?w"
        unfolding p by (rule andThen_Inr)
      moreover have "buildOverwrites C ?w ?r = buildOverwrites C w ?r"
        by (rule buildOverwrites_everyone) simp
      ultimately show ?thesis
        using False None nr by (simp add: afterRole_channels resolveChannel_channels)
    qed
  qed
qed

text \<open>The roles and channels after the handler, for every message, state and platform.\<close>

lemma messageCreate_roles:
  "roles (snd (messageCreate U C E m w)) =
     (if inScope C m \<and> extractFullName m \<noteq> []
         \<and> toLowerCase U (extractFullName m)
             \<notin> (case fetchNames U C E of Inl e \<Rightarrow> {} | Inr names \<Rightarrow> names)
         \<and> 2 \<le> length (splitWs (extractFullName m))
         \<and> \<not> rejects E GuildsFetch
         \<and> find (\<lambda>r. toLowerCase U (role_name r)
                        = toLowerCase U (splitWs (extractFullName m) ! 0)) (roles w) = None
         \<and> \<not> rejects E RolesCreate
      then roles w
           @ [\<lparr> role_id = newRoleId E, role_name = splitWs (extractFullName m) ! 0 \<rparr>]
      else roles w)"
proof (cases "inScope C m \<and> extractFullName m \<noteq> []")
  case False
  then show ?thesis
    by (auto simp: messageCreate_keeps [where P = roles] handleMessage_silent)
next
  case True
  have l: "\<And>x. roles ((snd (loadExistingOCs U C E w))\<lparr>existingOCNames := x\<rparr>) = roles w"
    by (simp add: loadExistingOCs_keeps [where P = roles])
  from True show ?thesis
    by (simp add: messageCreate_keeps [where P = roles] handleMessage_named Let_def
          reply_keeps [where P = roles] provision_roles l not_less)
qed

lemma messageCreate_channels:
  "channels (snd (messageCreate U C E m w)) =
     (if inScope C m \<and> extractFullName m \<noteq> []
         \<and> toLowerCase U (extractFullName m)
             \<notin> (case fetchNames U C E of Inl e \<Rightarrow> {} | Inr names \<Rightarrow> names)
         \<and> 2 \<le> length (splitWs (extractFullName m))
         \<and> \<not> rejects E GuildsFetch
         \<and> (find (\<lambda>r. toLowerCase U (role_name r)
                         = toLowerCase U (splitWs (extractFullName m) ! 0)) (roles w) \<noteq> None
             \<or> \<not> rejects E RolesCreate)
         \<and> find (\<lambda>c. chan_type c = GuildText
                       \<and> chan_name c = js ''oc-'' @ slugify U (extractFullName m))
              (channels w) = None
         \<and> \<not> rejects E ChannelsCreate
      then channels w
           @ [\<lparr> chan_id = newChannelId E,
                chan_name = js ''oc-'' @ slugify U (extractFullName m),
                chan_type = GuildText,
                parent = (if truthy (OC_CATEGORY_ID C) then OC_CATEGORY_ID C else None),
                permissionOverwrites =
                  buildOverwrites C w
                    (case find (\<lambda>r. toLowerCase U (role_name r)
                                      = toLowerCase U (splitWs (extractFullName m) ! 0))
                            (roles w) of
                       Some r \<Rightarrow> r
                     | None \<Rightarrow> \<lparr> role_id = newRoleId E,
                                 role_name = splitWs (extractFullName m) ! 0 \<rparr>) \<rparr>]
      else channels w)"
proof (cases "inScope C m \<and> extractFullName m \<noteq> []")
  case False
  then show ?thesis
    by (auto simp: messageCreate_keeps [where P = channels] handleMessage_silent)
next
  case True
  have l: "\<And>x. roles ((snd (loadExistingOCs U C E w))\<lparr>existingOCNames := x\<rparr>) = roles w"
    "\<And>x. channels ((snd (loadExistingOCs U C E w))\<lparr>existingOCNames := x\<rparr>) = channels w"
    by (simp_all add: loadExistingOCs_keeps [where P = roles]
          loadExistingOCs_keeps [where P = channels])
  have b: "\<And>x r. buildOverwrites C ((snd (loadExistingOCs U C E w))\<lparr>existingOCNames := x\<rparr>) r
      = buildOverwrites C w r"
    by (rule buildOverwrites_everyone)
       (simp add: loadExistingOCs_keeps [where P = everyone_id])
  from True show ?thesis
    by (simp add: messageCreate_keeps [where P = channels] handleMessage_named Let_def
          reply_keeps [where P = channels] provision_channels l b not_less)
qed

section \<open>The permission overwrites of a new channel\<close>

text \<open>
  Claim C7. Whenever the handler creates a channel, the new channel is the last of the
  cache, and its overwrites are, in this order: the default role of the guild denied
  the view of the channel; the character role (the role that the lookup by the first
  name now finds) allowed to view, send, read the history, attach files, embed links
  and add reactions; the role of \<open>MOD_ROLE_ID\<close> allowed to view, send, read the history,
  manage messages and manage channels; and, exactly when \<open>GM_ROLE_ID\<close> is a non-empty
  string, that role with the last allow list. Without it the list has three entries.
\<close>

theorem new_channel_overwrites:
  assumes "channels (snd (messageCreate U C E m w)) \<noteq> channels w"
  shows "\<exists>ch r.
      channels (snd (messageCreate U C E m w)) = channels w @ [ch]
      \<and> find (\<lambda>r. toLowerCase U (role_name r)
                     = toLowerCase U (splitWs (extractFullName m) ! 0))
           (roles (snd (messageCreate U C E m w))) = Some r
      \<and> permissionOverwrites ch =
          [\<lparr> ow_id = Some (everyone_id w), allow = [], deny = [ViewChannel] \<rparr>,
           \<lparr> ow_id = Some (role_id r),
             allow = [ViewChannel, SendMessages, ReadMessageHistory, AttachFiles, EmbedLinks,
                      AddReactions],
             deny = [] \<rparr>,
           \<lparr> ow_id = MOD_ROLE_ID C,
             allow = [ViewChannel, SendMessages, ReadMessageHistory, ManageMessages,
                      ManageChannels],
             deny = [] \<rparr>]
          @ (if truthy (GM_ROLE_ID C)
             then [\<lparr> ow_id = GM_ROLE_ID C,
                     allow = [ViewChannel, SendMessages, ReadMessageHistory, ManageMessages,
                              ManageChannels],
                     deny = [] \<rparr>]
             else [])"
proof -
  let ?P = "\<lambda>r. toLowerCase U (role_name r) = toLowerCase U (splitWs (extractFullName m) ! 0)"
  let ?new = "\<lparr> role_id = newRoleId E, role_name = splitWs (extractFullName m) ! 0 \<rparr>"
  let ?r = "case find ?P (roles w) of Some r \<Rightarrow> r | None \<Rightarrow> ?new"
  let ?ch = "\<lparr> chan_id = newChannelId E,
                chan_name = js ''oc-'' @ slugify U (extractFullName m),
                chan_type = GuildText,
                parent = (if truthy (OC_CATEGORY_ID C) then OC_CATEGORY_ID C else None),
                permissionOverwrites = buildOverwrites C w ?r \<rparr>"
  from assms have c: "inScope C m \<and> extractFullName m \<noteq> []
         \<and> toLowerCase U (extractFullName m)
             \<notin> (case fetchNames U C E of Inl e \<Rightarrow> {} | Inr names \<Rightarrow> names)
         \<and> 2 \<le> length (splitWs (extractFullName m))
         \<and> \<not> rejects E GuildsFetch
         \<and> (find ?P (roles w) \<noteq> None \<or> \<not> rejects E RolesCreate)"
    and ch: "channels (snd (messageCreate U C E m w)) = channels w @ [?ch]"
    by (auto simp: messageCreate_channels [of U C E m w] split: if_splits)
  have "find ?P (roles (snd (messageCreate U C E m w))) = Some ?r"
  proof (cases "find ?P (roles w)")
    case None
    with c have "roles (snd (messageCreate U C E m w)) = roles w @ [?new]"
      by (simp add: messageCreate_roles)
    with None show ?thesis
      by (simp add: find_append_new)
  next
    case (Some r)
    then have "roles (snd (messageCreate U C E m w)) = roles w"
      by (simp add: messageCreate_roles)
    with Some show ?thesis by simp
  qed
  moreover have "permissionOverwrites ?ch = buildOverwrites C w ?r"
    by simp
  ultimately show ?thesis
    using ch unfolding buildOverwrites_def by blast
qed

text \<open>
  With a game-master role configured, the first submission of Mito Uzumaki creates a
  channel with four overwrites.
\<close>

theorem new_channel_overwrites_witness:
  "channels (snd (messageCreate ascii_unicode gmConfig exampleEnv
       (exampleMessage (js ''OC: Mito Uzumaki'')) exampleWorld)) \<noteq> channels exampleWorld
   \<and> permissionOverwrites (last (channels (snd (messageCreate ascii_unicode gmConfig exampleEnv
       (exampleMessage (js ''OC: Mito Uzumaki'')) exampleWorld)))) =
       [\<lparr> ow_id = Some (js ''100''), allow = [], deny = [ViewChannel] \<rparr>,
        \<lparr> ow_id = Some (js ''501''),
          allow = [ViewChannel, SendMessages, ReadMessageHistory, AttachFiles, EmbedLinks,
                   AddReactions],
          deny = [] \<rparr>,
        \<lparr> ow_id = Some (js ''400''),
          allow = [ViewChannel, SendMessages, ReadMessageHistory, ManageMessages,
                   ManageChannels],
          deny = [] \<rparr>,
        \<lparr> ow_id = Some (js ''450''),
          allow = [ViewChannel, SendMessages, ReadMessageHistory, ManageMessages,
                   ManageChannels],
          deny = [] \<rparr>]"
proof -
  let ?w = "snd (messageCreate ascii_unicode gmConfig exampleEnv
       (exampleMessage (js ''OC: Mito Uzumaki'')) exampleWorld)"
  have h: "channels ?w \<noteq> channels exampleWorld"
    by code_simp
  have f: "find (\<lambda>r. toLowerCase ascii_unicode (role_name r)
                     = toLowerCase ascii_unicode
                         (splitWs (extractFullName (exampleMessage (js ''OC: Mito Uzumaki''))) ! 0))
           (roles ?w) = Some \<lparr> role_id = js ''501'', role_name = js ''Mito'' \<rparr>"
    by code_simp
  have g: "everyone_id exampleWorld = js ''100''" "MOD_ROLE_ID gmConfig = Some (js ''400'')"
    "GM_ROLE_ID gmConfig = Some (js ''450'')" "truthy (Some (js ''450''))"
    by (simp_all add: exampleWorld_def gmConfig_def exampleConfig_def truthy_def js_def)
  from new_channel_overwrites [OF h] f g
  have "permissionOverwrites (last (channels ?w)) =
       [\<lparr> ow_id = Some (js ''100''), allow = [], deny = [ViewChannel] \<rparr>,
        \<lparr> ow_id = Some (js ''501''),
          allow = [ViewChannel, SendMessages, ReadMessageHistory, AttachFiles, EmbedLinks,
                   AddReactions],
          deny = [] \<rparr>,
        \<lparr> ow_id = Some (js ''400''),
          allow = [ViewChannel, SendMessages, ReadMessageHistory, ManageMessages,
                   ManageChannels],
          deny = [] \<rparr>,
        \<lparr> ow_id = Some (js ''450''),
          allow = [ViewChannel, SendMessages, ReadMessageHistory, ManageMessages,
                   ManageChannels],
          deny = [] \<rparr>]"
    by auto
  with h show ?thesis by simp
qed

section \<open>Provisioning twice\<close>

text \<open>
  Claim C1. A message in scope whose name has at least two parts and is not in the
  fetched roster is handled twice, the second time in the state the first run left,
  and the platform does not reject the fetch of the guild or the two creations of the
  first run. Then the second run creates no role and no channel: both lookups (the
  role by its lowercased name, the channel by its type and exact name) succeed in the
  state the first run left. The first run adds exactly one role, with the first part as
  its name, when no role matched before, and none otherwise; and exactly one text
  channel named \<open>oc-\<close> followed by the slug of the full name when there was none, and
  none otherwise.
\<close>

theorem provision_twice_creates_once:
  assumes "inScope C m" and "extractFullName m \<noteq> []"
    and "2 \<le> length (splitWs (extractFullName m))"
    and "toLowerCase U (extractFullName m)
           \<notin> (case fetchNames U C E1 of Inl e \<Rightarrow> {} | Inr names \<Rightarrow> names)"
    and "toLowerCase U (extractFullName m)
           \<notin> (case fetchNames U C E2 of Inl e \<Rightarrow> {} | Inr names \<Rightarrow> names)"
    and "\<not> rejects E1 GuildsFetch" and "\<not> rejects E1 RolesCreate"
    and "\<not> rejects E1 ChannelsCreate"
  shows "let isRole = (\<lambda>r. toLowerCase U (role_name r)
                            = toLowerCase U (splitWs (extractFullName m) ! 0));
             isChannel = (\<lambda>c. chan_type c = GuildText
                            \<and> chan_name c = js ''oc-'' @ slugify U (extractFullName m));
             w1 = snd (messageCreate U C E1 m w);
             w2 = snd (messageCreate U C E2 m w1)
         in roles w2 = roles w1 \<and> channels w2 = channels w1
            \<and> find isRole (roles w1) \<noteq> None \<and> find isChannel (channels w1) \<noteq> None
            \<and> (if find isRole (roles w) = None
                then roles w1 = roles w
                       @ [\<lparr> role_id = newRoleId E1,
                            role_name = splitWs (extractFullName m) ! 0 \<rparr>]
                else roles w1 = roles w)
            \<and> (if find isChannel (channels w) = None
                then \<exists>ch. channels w1 = channels w @ [ch] \<and> isChannel ch
                else channels w1 = channels w)"
proof -
  let ?isRole = "\<lambda>r. toLowerCase U (role_name r)
                            = toLowerCase U (splitWs (extractFullName m) ! 0)"
  let ?isChannel = "\<lambda>c. chan_type c = GuildText
                            \<and> chan_name c = js ''oc-'' @ slugify U (extractFullName m)"
  let ?w1 = "snd (messageCreate U C E1 m w)"
  let ?w2 = "snd (messageCreate U C E2 m ?w1)"
  let ?new = "\<lparr> role_id = newRoleId E1, role_name = splitWs (extractFullName m) ! 0 \<rparr>"
  have r1: "roles ?w1 = (if find ?isRole (roles w) = None then roles w @ [?new] else roles w)"
    using assms by (simp add: messageCreate_roles)
  have fr: "find ?isRole (roles ?w1) \<noteq> None"
  proof (cases "find ?isRole (roles w)")
    case None
    then show ?thesis by (simp add: r1 find_append_new)
  next
    case (Some r)
    then show ?thesis by (simp add: r1)
  qed
  have c1: "if find ?isChannel (channels w) = None
            then \<exists>ch. channels ?w1 = channels w @ [ch] \<and> ?isChannel ch
            else channels ?w1 = channels w"
    using assms by (simp add: messageCreate_channels)
  have fc: "find ?isChannel (channels ?w1) \<noteq> None"
  proof (cases "find ?isChannel (channels w)")
    case None
    with c1 obtain ch where "channels ?w1 = channels w @ [ch]" and "?isChannel ch"
      by auto
    with None show ?thesis by (simp add: find_append_new)
  next
    case (Some c)
    with c1 show ?thesis by simp
  qed
  have r2: "roles ?w2 = roles ?w1"
    using fr by (simp add: messageCreate_roles [of U C E2 m ?w1])
  have c2: "channels ?w2 = channels ?w1"
    using fc by (simp add: messageCreate_channels [of U C E2 m ?w1])
  from r1 fr c1 fc r2 c2 show ?thesis
    unfolding Let_def by simp
qed

text \<open>
  Mito Uzumaki is submitted twice to the empty example guild: one role Mito and one
  channel oc-mito-uzumaki.
\<close>

theorem provision_twice_creates_once_witness:
  "inScope exampleConfig (exampleMessage (js ''OC: Mito Uzumaki''))
   \<and> extractFullName (exampleMessage (js ''OC: Mito Uzumaki'')) = js ''Mito Uzumaki''
   \<and> splitWs (js ''Mito Uzumaki'') = [js ''Mito'', js ''Uzumaki'']
   \<and> toLowerCase ascii_unicode (js ''Mito Uzumaki'')
       \<notin> (case fetchNames ascii_unicode exampleConfig exampleEnv of
            Inl e \<Rightarrow> {} | Inr names \<Rightarrow> names)
   \<and> \<not> rejects exampleEnv GuildsFetch \<and> \<not> rejects exampleEnv RolesCreate
   \<and> \<not> rejects exampleEnv ChannelsCreate
   \<and> roles (snd (messageCreate ascii_unicode exampleConfig exampleEnv
         (exampleMessage (js ''OC: Mito Uzumaki''))
         (snd (messageCreate ascii_unicode exampleConfig exampleEnv
            (exampleMessage (js ''OC: Mito Uzumaki'')) exampleWorld))))
       = [\<lparr> role_id = js ''501'', role_name = js ''Mito'' \<rparr>]
   \<and> map chan_name (channels (snd (messageCreate ascii_unicode exampleConfig exampleEnv
         (exampleMessage (js ''OC: Mito Uzumaki''))
         (snd (messageCreate ascii_unicode exampleConfig exampleEnv
            (exampleMessage (js ''OC: Mito Uzumaki'')) exampleWorld)))))
       = [js ''oc-mito-uzumaki'']"
proof -
  let ?m = "exampleMessage (js ''OC: Mito Uzumaki'')"
  have s: "inScope exampleConfig ?m"
    by code_simp
  have n: "extractFullName ?m = js ''Mito Uzumaki''"
    by code_simp
  have p: "splitWs (js ''Mito Uzumaki'') = [js ''Mito'', js ''Uzumaki'']"
    by code_simp
  have f: "toLowerCase ascii_unicode (js ''Mito Uzumaki'')
       \<notin> (case fetchNames ascii_unicode exampleConfig exampleEnv of
            Inl e \<Rightarrow> {} | Inr names \<Rightarrow> names)"
    by code_simp
  have r: "\<not> rejects exampleEnv GuildsFetch" "\<not> rejects exampleEnv RolesCreate"
    "\<not> rejects exampleEnv ChannelsCreate"
    by (simp_all add: exampleEnv_def)
  have e: "js ''Mito Uzumaki'' \<noteq> []"
    by (simp add: js_def)
  have g: "slugify ascii_unicode (js ''Mito Uzumaki'') = js ''mito-uzumaki''"
    by code_simp
  have w: "roles exampleWorld = []" "channels exampleWorld = []" "newRoleId exampleEnv = js ''501''"
    by (simp_all add: exampleWorld_def exampleEnv_def)
  have t: "js ''oc-'' @ js ''mito-uzumaki'' = js ''oc-mito-uzumaki''"
    by (simp add: js_def)
  have ne: "extractFullName ?m \<noteq> []"
    using n e by simp
  have len: "2 \<le> length (splitWs (extractFullName ?m))"
    using n p by simp
  have f': "toLowerCase ascii_unicode (extractFullName ?m)
       \<notin> (case fetchNames ascii_unicode exampleConfig exampleEnv of
            Inl e \<Rightarrow> {} | Inr names \<Rightarrow> names)"
    using n f by simp
  have fst_part: "splitWs (extractFullName ?m) ! 0 = js ''Mito''"
    using n p by simp
  have name: "js ''oc-'' @ slugify ascii_unicode (extractFullName ?m) = js ''oc-mito-uzumaki''"
    using n g t by simp
  note twice = provision_twice_creates_once
         [of exampleConfig ?m ascii_unicode exampleEnv exampleEnv exampleWorld,
          OF s ne len f' f' r, unfolded Let_def fst_part name w]
  from twice have "roles (snd (messageCreate ascii_unicode exampleConfig exampleEnv ?m
         (snd (messageCreate ascii_unicode exampleConfig exampleEnv ?m exampleWorld))))
       = [\<lparr> role_id = js ''501'', role_name = js ''Mito'' \<rparr>]
     \<and> map chan_name (channels (snd (messageCreate ascii_unicode exampleConfig exampleEnv ?m
         (snd (messageCreate ascii_unicode exampleConfig exampleEnv ?m exampleWorld)))))
       = [js ''oc-mito-uzumaki'']"
    by auto
  with s n p f r show ?thesis by simp
qed

section \<open>What the roster holds\<close>







section \<open>What name extraction returns\<close>

declare captureRest.simps [simp del]

lemma last_dropWhile: "dropWhile P xs \<noteq> [] \<Longrightarrow> last (dropWhile P xs) = last xs"
  by (induction xs) (auto split: if_splits)

lemma trim_ends:
  assumes "trim s \<noteq> []"
  shows "\<not> isSpace (hd (trim s))" and "\<not> isSpace (last (trim s))"
proof -
  let ?d = "dropWhile isSpace s"
  let ?x = "dropWhile isSpace (rev ?d)"
  from assms have x: "?x \<noteq> []"
    by (simp add: trim_def)
  then have d: "?d \<noteq> []"
    by (metis dropWhile.simps(1) rev.simps(1))
  have "hd (trim s) = last ?x"
    by (simp add: trim_def hd_rev)
  also have "\<dots> = last (rev ?d)"
    using x by (rule last_dropWhile)
  also have "\<dots> = hd ?d"
    by (simp add: last_rev)
  finally show "\<not> isSpace (hd (trim s))"
    using hd_dropWhile [OF d] by simp
  have "last (trim s) = hd ?x"
    by (simp add: trim_def last_rev)
  then show "\<not> isSpace (last (trim s))"
    using hd_dropWhile [OF x] by simp
qed

lemma trim_fixed:
  assumes "t = [] \<or> (\<not> isSpace (hd t) \<and> \<not> isSpace (last t))"
  shows "trim t = t"
proof (cases "t = []")
  case True
  then show ?thesis by (simp add: trim_def)
next
  case False
  with assms have h: "\<not> isSpace (hd t)" and l: "\<not> isSpace (last t)"
    by auto
  from h have "dropWhile isSpace t = t"
    by (simp add: dropWhile_eq_self_iff)
  moreover from l False have "dropWhile isSpace (rev t) = rev t"
    by (simp add: dropWhile_eq_self_iff hd_rev)
  ultimately show ?thesis
    by (simp add: trim_def)
qed

lemma trim_trim: "trim (trim s) = trim s"
  using trim_ends [of s] by (intro trim_fixed) auto

lemma dropWhile_trim: "dropWhile isSpace (trim s) = trim s"
  using trim_ends(1) [of s] by (auto simp: dropWhile_eq_self_iff)

lemma trim_dropWhile: "trim (dropWhile isSpace s) = trim s"
  by (simp add: trim_def)

lemma colon_not_space: "\<not> isSpace colon"
  by (simp add: isSpace_def colon_def)

text \<open>The anchored pattern on a keyword, a colon and a remainder on one line.\<close>

lemma matchAt_prefixed:
  assumes k: "map ascii_lower kw = js k"
    and w1: "\<forall>c\<in>set ws1. isSpace c" and w2: "\<forall>c\<in>set ws2. isSpace c"
    and r: "rest \<noteq> []" and l: "\<not> isSpace (last rest)"
    and t: "\<forall>c\<in>set rest. \<not> isLineTerminator c"
  shows "matchAt True k (kw @ ws1 @ colon # ws2 @ rest) = Some (dropWhile isSpace rest)"
proof -
  from k have len: "length kw = length k"
    by (metis js_def length_map)
  then have p: "ciPrefix k (kw @ ws1 @ colon # ws2 @ rest) = Some (ws1 @ colon # ws2 @ rest)"
    using k by (simp add: ciPrefix_def)
  have d: "dropWhile isSpace (ws1 @ colon # ws2 @ rest) = colon # ws2 @ rest"
    using w1 colon_not_space by simp
  have dr: "dropWhile isSpace (ws2 @ rest) = dropWhile isSpace rest"
    using w2 by simp
  from r l have ne: "dropWhile isSpace rest \<noteq> []"
    by (metis dropWhile_eq_Nil_conv last_in_set)
  from t have all: "takeWhile (\<lambda>c. \<not> isLineTerminator c) (dropWhile isSpace rest)
      = dropWhile isSpace rest"
    by (auto dest: set_dropWhileD)
  have "drop (length (takeWhile isSpace (ws2 @ rest))) (ws2 @ rest)
      = dropWhile isSpace (ws2 @ rest)"
    by (rule dropWhile_eq_drop [symmetric])
  with dr have e: "drop (length (takeWhile isSpace (ws2 @ rest))) (ws2 @ rest)
      = dropWhile isSpace rest"
    by simp
  have "captureRest True (ws2 @ rest) (length (takeWhile isSpace (ws2 @ rest)))
      = Some (dropWhile isSpace rest)"
    by (subst captureRest.simps)
       (simp only: Let_def e all ne simp_thms if_True not_False_eq_True)
  with p d show ?thesis
    by (simp add: matchAt_def)
qed

lemma matchAt_shape:
  assumes "matchAt a k s = Some g"
  shows "\<exists>ws tl. s = take (length k) s @ ws @ colon # tl
          \<and> map ascii_lower (take (length k) s) = js k \<and> (\<forall>c\<in>set ws. isSpace c)"
proof -
  let ?s1 = "drop (length k) s"
  from assms have k: "map ascii_lower (take (length k) s) = js k"
    and c: "\<exists>s2. dropWhile isSpace ?s1 = colon # s2"
    by (auto simp: matchAt_def ciPrefix_def split: if_splits option.splits list.splits)
  from c obtain s2 where s2: "dropWhile isSpace ?s1 = colon # s2" ..
  have "?s1 = takeWhile isSpace ?s1 @ dropWhile isSpace ?s1"
    by simp
  with s2 have "?s1 = takeWhile isSpace ?s1 @ colon # s2"
    by simp
  then have "s = take (length k) s @ takeWhile isSpace ?s1 @ colon # s2"
    by (metis append_take_drop_id)
  moreover have "\<forall>c\<in>set (takeWhile isSpace ?s1). isSpace c"
    by (auto dest: set_takeWhileD)
  ultimately show ?thesis
    using k by blast
qed

lemma parseOCName_prefixed:
  assumes s: "trim str = kw @ ws1 @ colon # ws2 @ rest"
    and k: "map ascii_lower kw = js ''oc'' \<or> map ascii_lower kw = js ''name''"
    and w1: "\<forall>c\<in>set ws1. isSpace c" and w2: "\<forall>c\<in>set ws2. isSpace c"
    and r: "rest \<noteq> []" and t: "\<forall>c\<in>set rest. \<not> isLineTerminator c"
  shows "parseOCName str = trim rest"
proof -
  from s r have "last (trim str) = last rest" and "trim str \<noteq> []"
    by simp_all
  with trim_ends(2) [of str] have l: "\<not> isSpace (last rest)"
    by simp
  from k show ?thesis
  proof
    assume "map ascii_lower kw = js ''oc''"
    then have "matchAt True ''oc'' (trim str) = Some (dropWhile isSpace rest)"
      unfolding s using w1 w2 r l t by (rule matchAt_prefixed)
    then show ?thesis
      by (simp add: parseOCName_def Let_def dropWhile_trim trim_dropWhile)
  next
    assume n: "map ascii_lower kw = js ''name''"
    then have m: "matchAt True ''name'' (trim str) = Some (dropWhile isSpace rest)"
      unfolding s using w1 w2 r l t by (rule matchAt_prefixed)
    from n have "length (map ascii_lower kw) = length (js ''name'')"
      by simp
    then have "length kw = 4"
      by (simp add: js_def)
    then have "map ascii_lower (take 2 (trim str)) = take 2 (map ascii_lower kw)"
      unfolding s by (simp add: take_map)
    with n have "map ascii_lower (take 2 (trim str)) \<noteq> js ''oc''"
      by (simp add: js_def)
    then have "matchAt True ''oc'' (trim str) = None"
      by (simp add: matchAt_def ciPrefix_def numeral_2_eq_2)
    with m show ?thesis
      by (simp add: parseOCName_def Let_def dropWhile_trim trim_dropWhile)
  qed
qed

lemma parseOCName_unprefixed:
  assumes "\<not> (\<exists>kw ws tl. trim str = kw @ ws @ colon # tl
             \<and> (map ascii_lower kw = js ''oc'' \<or> map ascii_lower kw = js ''name'')
             \<and> (\<forall>c\<in>set ws. isSpace c))"
  shows "parseOCName str = trim str"
proof -
  have "matchAt True ''oc'' (trim str) = None"
  proof (rule ccontr)
    assume "matchAt True ''oc'' (trim str) \<noteq> None"
    then obtain g where "matchAt True ''oc'' (trim str) = Some g"
      by auto
    from matchAt_shape [OF this] assms show False
      by blast
  qed
  moreover have "matchAt True ''name'' (trim str) = None"
  proof (rule ccontr)
    assume "matchAt True ''name'' (trim str) \<noteq> None"
    then obtain g where "matchAt True ''name'' (trim str) = Some g"
      by auto
    from matchAt_shape [OF this] assms show False
      by blast
  qed
  ultimately show ?thesis
    by (simp add: parseOCName_def Let_def dropWhile_trim trim_trim)
qed

text \<open>
  Claim C5, as the claim states it, fails. The title \<open>OC:\<close> followed by a space matches
  the pattern with a space as the rest, so the claim gives the empty name and no action.
  The handler falls back to the text whenever the embed gave no name or an empty one:
  the name is Mito Uzumaki, and the role is created.
\<close>

theorem blank_embed_rest_counterexample:
  "embeds blankTitleMessage = [\<lparr> title = Some (js ''OC: ''), embedData = [] \<rparr>]
   \<and> searchOC (js ''OC: '') = Some (js '' '')
   \<and> trim (js '' '') = []
   \<and> extractFullName blankTitleMessage = js ''Mito Uzumaki''
   \<and> roles (snd (messageCreate ascii_unicode exampleConfig exampleEnv blankTitleMessage
         exampleWorld)) = [\<lparr> role_id = js ''501'', role_name = js ''Mito'' \<rparr>]"
proof (intro conjI)
  show "embeds blankTitleMessage = [\<lparr> title = Some (js ''OC: ''), embedData = [] \<rparr>]"
    by (simp add: blankTitleMessage_def)
  show "searchOC (js ''OC: '') = Some (js '' '')"
    by code_simp
  show "trim (js '' '') = []"
    by code_simp
  show "extractFullName blankTitleMessage = js ''Mito Uzumaki''"
    by code_simp
  show "roles (snd (messageCreate ascii_unicode exampleConfig exampleEnv blankTitleMessage
         exampleWorld)) = [\<lparr> role_id = js ''501'', role_name = js ''Mito'' \<rparr>]"
    by code_simp
qed

text \<open>
  Claim C5, amended. When the first embed has a title in which the pattern
  \<open>OC\s*:\s*(.+)\<close> is found (anywhere, without case) and the trimmed group is not empty,
  the name is the trimmed group. Otherwise (no embed, no title, no match, or a group
  that is empty once trimmed) the name is parsed from the text: when the trimmed text
  is \<open>oc\<close> or \<open>name\<close> in any case, optional whitespace, a colon, optional whitespace and a
  non-empty remainder without a line terminator, the name is that remainder trimmed;
  when the trimmed text does not begin with \<open>oc\<close> or \<open>name\<close>, optional whitespace and a
  colon, the name is the whole trimmed text. When the name is empty the handler does
  nothing: it returns with the state unchanged.
\<close>

theorem name_extraction:
  "(\<forall>e es t g. embeds m = e # es \<and> title e = Some t \<and> searchOC t = Some g \<and> trim g \<noteq> []
       \<longrightarrow> extractFullName m = trim g)
   \<and> (embeds m = []
        \<or> (\<exists>e es. embeds m = e # es
              \<and> (title e = None
                  \<or> (\<exists>t. title e = Some t
                        \<and> (searchOC t = None \<or> (\<exists>g. searchOC t = Some g \<and> trim g = [])))))
       \<longrightarrow> extractFullName m = parseOCName (content m))
   \<and> (\<forall>kw ws1 ws2 rest.
         trim str = kw @ ws1 @ colon # ws2 @ rest
         \<and> (map ascii_lower kw = js ''oc'' \<or> map ascii_lower kw = js ''name'')
         \<and> (\<forall>c\<in>set ws1. isSpace c) \<and> (\<forall>c\<in>set ws2. isSpace c)
         \<and> rest \<noteq> [] \<and> (\<forall>c\<in>set rest. \<not> isLineTerminator c)
       \<longrightarrow> parseOCName str = trim rest)
   \<and> (\<not> (\<exists>kw ws tl. trim str = kw @ ws @ colon # tl
             \<and> (map ascii_lower kw = js ''oc'' \<or> map ascii_lower kw = js ''name'')
             \<and> (\<forall>c\<in>set ws. isSpace c))
       \<longrightarrow> parseOCName str = trim str)
   \<and> (extractFullName m = [] \<longrightarrow> messageCreate U C E m w = (Inr (), w))"
proof (intro conjI allI impI)
  fix e es t g
  assume "embeds m = e # es \<and> title e = Some t \<and> searchOC t = Some g \<and> trim g \<noteq> []"
  moreover from this have "t \<noteq> []"
    by auto
  ultimately show "extractFullName m = trim g"
    by (simp add: extractFullName_def embedName_def)
next
  assume "embeds m = []
        \<or> (\<exists>e es. embeds m = e # es
              \<and> (title e = None
                  \<or> (\<exists>t. title e = Some t
                        \<and> (searchOC t = None \<or> (\<exists>g. searchOC t = Some g \<and> trim g = [])))))"
  then have "embedName m = None \<or> embedName m = Some []"
    by (auto simp: embedName_def split: if_splits)
  then show "extractFullName m = parseOCName (content m)"
    by (auto simp: extractFullName_def)
next
  fix kw ws1 ws2 rest
  assume "trim str = kw @ ws1 @ colon # ws2 @ rest
         \<and> (map ascii_lower kw = js ''oc'' \<or> map ascii_lower kw = js ''name'')
         \<and> (\<forall>c\<in>set ws1. isSpace c) \<and> (\<forall>c\<in>set ws2. isSpace c)
         \<and> rest \<noteq> [] \<and> (\<forall>c\<in>set rest. \<not> isLineTerminator c)"
  then show "parseOCName str = trim rest"
    by (intro parseOCName_prefixed [of str kw ws1 ws2 rest]) simp_all
next
  assume "\<not> (\<exists>kw ws tl. trim str = kw @ ws @ colon # tl
             \<and> (map ascii_lower kw = js ''oc'' \<or> map ascii_lower kw = js ''name'')
             \<and> (\<forall>c\<in>set ws. isSpace c))"
  then show "parseOCName str = trim str"
    by (rule parseOCName_unprefixed)
next
  assume "extractFullName m = []"
  then have "handleMessage U C E m w = (Inr (), w)"
    by (simp add: handleMessage_silent)
  then show "messageCreate U C E m w = (Inr (), w)"
    by (simp add: messageCreate_def)
qed

text \<open>
  The embed title \<open>OC: Mito Uzumaki\<close> gives Mito Uzumaki; a first embed without a match
  leaves the name to the text; the text \<open>Name :  Rock Lee\<close> between spaces gives Rock
  Lee; the text Gaara is its own name; a text of spaces gives no name and no action.
\<close>

theorem name_extraction_witness:
  "searchOC (js ''OC: Mito Uzumaki'') = Some (js ''Mito Uzumaki'')
   \<and> extractFullName webhookSubmission = js ''Mito Uzumaki''
   \<and> searchOC (js ''Character sheet'') = None
   \<and> extractFullName twoEmbeds = parseOCName (js ''OC: Rock Lee'')
   \<and> trim (js ''  Name :  Rock Lee '') = js ''Name'' @ js '' '' @ colon # js ''  '' @ js ''Rock Lee''
   \<and> parseOCName (js ''  Name :  Rock Lee '') = js ''Rock Lee''
   \<and> colon \<notin> set (trim (js ''Gaara''))
   \<and> parseOCName (js ''Gaara'') = js ''Gaara''
   \<and> extractFullName (exampleMessage (js ''   '')) = []
   \<and> messageCreate ascii_unicode exampleConfig exampleEnv (exampleMessage (js ''   ''))
        exampleWorld = (Inr (), exampleWorld)"
proof -
  note fromEmbed = name_extraction [THEN conjunct1, rule_format]
  note fallback = name_extraction [THEN conjunct2, THEN conjunct1, rule_format]
  note prefixed = name_extraction [THEN conjunct2, THEN conjunct2, THEN conjunct1, rule_format]
  note whole = name_extraction
    [THEN conjunct2, THEN conjunct2, THEN conjunct2, THEN conjunct1, rule_format]
  note silent = name_extraction
    [THEN conjunct2, THEN conjunct2, THEN conjunct2, THEN conjunct2, rule_format]
  have a1: "searchOC (js ''OC: Mito Uzumaki'') = Some (js ''Mito Uzumaki'')"
    by code_simp
  have a2: "trim (js ''Mito Uzumaki'') = js ''Mito Uzumaki''"
    by code_simp
  have a3: "js ''Mito Uzumaki'' \<noteq> []"
    by (simp add: js_def)
  have a4: "embeds webhookSubmission
      = \<lparr> title = Some (js ''OC: Mito Uzumaki''), embedData = js ''A prodigy'' \<rparr> # []"
    by (simp add: webhookSubmission_def)
  have "extractFullName webhookSubmission = trim (js ''Mito Uzumaki'')"
    by (rule fromEmbed [where e = "\<lparr> title = Some (js ''OC: Mito Uzumaki''),
                                    embedData = js ''A prodigy'' \<rparr>"
                          and es = "[]" and t = "js ''OC: Mito Uzumaki''"])
       (simp add: a1 a2 a3 a4)
  with a2 have A: "extractFullName webhookSubmission = js ''Mito Uzumaki''"
    by simp
  have b1: "searchOC (js ''Character sheet'') = None"
    by code_simp
  have b2: "embeds twoEmbeds = []
        \<or> (\<exists>e es. embeds twoEmbeds = e # es
              \<and> (title e = None
                  \<or> (\<exists>t. title e = Some t
                        \<and> (searchOC t = None \<or> (\<exists>g. searchOC t = Some g \<and> trim g = [])))))"
    using b1 by (simp add: twoEmbeds_def)
  have b3: "content twoEmbeds = js ''OC: Rock Lee''"
    by (simp add: twoEmbeds_def exampleMessage_def)
  from fallback [OF b2] b3
  have B: "extractFullName twoEmbeds = parseOCName (js ''OC: Rock Lee'')"
    by simp
  have c1: "trim (js ''  Name :  Rock Lee '')
      = js ''Name'' @ js '' '' @ colon # js ''  '' @ js ''Rock Lee''"
    by code_simp
  have c2: "map ascii_lower (js ''Name'') = js ''name''"
    by code_simp
  have c3: "\<forall>c\<in>set (js '' ''). isSpace c" "\<forall>c\<in>set (js ''  ''). isSpace c"
    by (simp_all add: js_def isSpace_def)
  have c4: "js ''Rock Lee'' \<noteq> []"
    by (simp add: js_def)
  have c5: "\<forall>c\<in>set (js ''Rock Lee''). \<not> isLineTerminator c"
    by (simp add: js_def isLineTerminator_def)
  have c6: "trim (js ''Rock Lee'') = js ''Rock Lee''"
    by code_simp
  have "parseOCName (js ''  Name :  Rock Lee '') = trim (js ''Rock Lee'')"
    by (rule prefixed [where kw = "js ''Name''" and ?ws1.0 = "js '' ''" and ?ws2.0 = "js ''  ''"])
       (simp add: c1 c2 c3 c4 c5)
  with c6 have C: "parseOCName (js ''  Name :  Rock Lee '') = js ''Rock Lee''"
    by simp
  have d1: "colon \<notin> set (trim (js ''Gaara''))"
    by code_simp
  have d2: "\<not> (\<exists>kw ws tl. trim (js ''Gaara'') = kw @ ws @ colon # tl
             \<and> (map ascii_lower kw = js ''oc'' \<or> map ascii_lower kw = js ''name'')
             \<and> (\<forall>c\<in>set ws. isSpace c))"
  proof
    assume "\<exists>kw ws tl. trim (js ''Gaara'') = kw @ ws @ colon # tl
             \<and> (map ascii_lower kw = js ''oc'' \<or> map ascii_lower kw = js ''name'')
             \<and> (\<forall>c\<in>set ws. isSpace c)"
    then obtain kw ws tl where "trim (js ''Gaara'') = kw @ ws @ colon # tl"
      by blast
    then have "colon \<in> set (trim (js ''Gaara''))"
      by simp
    with d1 show False ..
  qed
  have d3: "trim (js ''Gaara'') = js ''Gaara''"
    by code_simp
  from whole [OF d2] d3
  have D: "parseOCName (js ''Gaara'') = js ''Gaara''"
    by simp
  have e1: "extractFullName (exampleMessage (js ''   '')) = []"
    by code_simp
  have E: "messageCreate ascii_unicode exampleConfig exampleEnv (exampleMessage (js ''   ''))
        exampleWorld = (Inr (), exampleWorld)"
    by (rule silent [OF e1])
  from a1 A b1 B c1 C d1 D e1 E show ?thesis
    by (intro conjI)
qed

section \<open>Where exceptions are caught\<close>





lemma loadExistingOCs_errors:
  "\<forall>err. fst (loadExistingOCs U C E w) = Inl err \<longrightarrow> err \<in> S"
  by (simp add: loadExistingOCs_fst)











end
